theory Spec2Isabelle
  imports Complex_Main
begin

section \<open>Numbers, points and the shared scale constants\<close>

text \<open>
  The generators compute with Python floats. The embedding computes with real numbers:
  every product and sum below is the exact value of the float expression of the source.
  Frame numbers and sway directions are Python ints and are kept as \<open>int\<close>.
\<close>

type_synonym point = "real \<times> real"

definition W :: real where "W = 400"
definition H :: real where "H = 460"
definition FPS :: int where "FPS = 30"
definition DURATION_SECONDS :: int where "DURATION_SECONDS = 7"
definition TOTAL_FRAMES :: int where "TOTAL_FRAMES = FPS * DURATION_SECONDS"

definition CX :: real where "CX = W / 2"
definition CY :: real where "CY = H / 2 + 10"
definition PSIZE :: real where "PSIZE = 340"

definition p :: "real \<Rightarrow> real" where "p fraction = fraction * PSIZE"

definition KAPPA :: real where "KAPPA = 5522848 / 10000000"

section \<open>Paths in the animation backend (\<open>generate_nudgy_lottie_v1.py\<close>)\<close>

text \<open>
  A Lottie bezier path is the dict \<open>{"c": closed, "v": vertices, "i": in_tangents,
  "o": out_tangents}\<close>; a vertex or tangent is a two-element list, here a pair.
\<close>

record lottie_path =
  path_c :: bool
  path_v :: "point list"
  path_i :: "point list"
  path_o :: "point list"

definition ellipse_bezier_path :: "real \<Rightarrow> real \<Rightarrow> real \<Rightarrow> real \<Rightarrow> lottie_path" where
  "ellipse_bezier_path cx cy rx ry =
     \<lparr> path_c = True,
       path_v = [(cx, cy - ry), (cx + rx, cy), (cx, cy + ry), (cx - rx, cy)],
       path_i = [(- rx * KAPPA, 0), (0, - ry * KAPPA), (rx * KAPPA, 0), (0, ry * KAPPA)],
       path_o = [(rx * KAPPA, 0), (0, ry * KAPPA), (- rx * KAPPA, 0), (0, - ry * KAPPA)] \<rparr>"

definition egg_shape_path :: "real \<Rightarrow> real \<Rightarrow> real \<Rightarrow> real \<Rightarrow> lottie_path" where
  "egg_shape_path cx cy body_w body_h =
     (let body_cy = cy; top_y = body_cy - body_h * 0.85 in
      \<lparr> path_c = True,
        path_v = [(cx, top_y),
                  (cx + body_w * 0.95, body_cy - body_h * 0.1),
                  (cx + body_w * 0.75, body_cy + body_h * 0.7),
                  (cx, body_cy + body_h * 0.95),
                  (cx - body_w * 0.75, body_cy + body_h * 0.7),
                  (cx - body_w * 0.95, body_cy - body_h * 0.1)],
        path_i = [(- body_w * 0.45, 0),
                  (0, - body_h * 0.45),
                  (body_w * 0.25, body_h * 0.15),
                  (body_w * 0.4, 0),
                  (- body_w * 0.25, body_h * 0.15),
                  (0, body_h * 0.45)],
        path_o = [(body_w * 0.45, 0),
                  (0, body_h * 0.45),
                  (- body_w * 0.25, body_h * 0.15),
                  (- body_w * 0.4, 0),
                  (body_w * 0.25, body_h * 0.15),
                  (0, - body_h * 0.45)] \<rparr>)"

definition rounded_triangle_path :: "real \<Rightarrow> real \<Rightarrow> real \<Rightarrow> real \<Rightarrow> lottie_path" where
  "rounded_triangle_path cx cy w h =
     \<lparr> path_c = True,
       path_v = [(cx, cy + h), (cx - w * 0.8, cy - h * 0.5), (cx + w * 0.8, cy - h * 0.5)],
       path_i = [(w * 0.3, - h * 0.3), (0, h * 0.3), (w * 0.3, 0)],
       path_o = [(- w * 0.3, - h * 0.3), (- w * 0.3, 0), (0, h * 0.3)] \<rparr>"

text \<open>
  \<open>wing_path\<close> builds the flipper in local coordinates and maps every vertex through the
  closure \<open>rot\<close> and every tangent through the closure \<open>rot_t\<close>. The closures read
  \<open>cos_a\<close>, \<open>sin_a\<close>, \<open>wing_x\<close> and \<open>oy\<close> from the enclosing call; here they are
  arguments. \<open>math.radians\<close> is multiplication by \<open>pi / 180\<close>.
\<close>

definition radians :: "real \<Rightarrow> real" where "radians d = d * pi / 180"

definition rot :: "real \<Rightarrow> real \<Rightarrow> real \<Rightarrow> real \<Rightarrow> real \<Rightarrow> real \<Rightarrow> point" where
  "rot cos_a sin_a wing_x oy x y = (x * cos_a - y * sin_a + wing_x, x * sin_a + y * cos_a + oy)"

definition rot_t :: "real \<Rightarrow> real \<Rightarrow> real \<Rightarrow> real \<Rightarrow> point" where
  "rot_t cos_a sin_a x y = (x * cos_a - y * sin_a, x * sin_a + y * cos_a)"

definition wing_path :: "real \<Rightarrow> real \<Rightarrow> real \<Rightarrow> real \<Rightarrow> real \<Rightarrow> real \<Rightarrow> lottie_path" where
  "wing_path cx cy side wing_w wing_h angle_deg =
     (let wing_x = cx + side * p 0.37;
          wy = cy + p 0.02;
          oy = wy - wing_h * 0.4;
          rad = radians (side * angle_deg);
          cos_a = cos rad;
          sin_a = sin rad;
          p0 = rot cos_a sin_a wing_x oy 0 (- wing_h * 0.5);
          p1 = rot cos_a sin_a wing_x oy (side * wing_w * 0.9) 0;
          p2 = rot cos_a sin_a wing_x oy (side * wing_w * 0.4) (wing_h * 0.5);
          p3 = rot cos_a sin_a wing_x oy (- side * wing_w * 0.1) 0
      in \<lparr> path_c = True,
           path_v = [p0, p1, p2, p3],
           path_i = [rot_t cos_a sin_a (- side * wing_w * 0.2) (- wing_h * 0.1),
                     rot_t cos_a sin_a 0 (- wing_h * 0.25),
                     rot_t cos_a sin_a (side * wing_w * 0.3) 0,
                     rot_t cos_a sin_a 0 (wing_h * 0.2)],
           path_o = [rot_t cos_a sin_a (side * wing_w * 0.3) 0,
                     rot_t cos_a sin_a 0 (wing_h * 0.25),
                     rot_t cos_a sin_a (- side * wing_w * 0.2) 0,
                     rot_t cos_a sin_a 0 (- wing_h * 0.2)] \<rparr>)"

definition scarf_path :: "real \<Rightarrow> real \<Rightarrow> lottie_path" where
  "scarf_path cx cy =
     (let scarf_y = cy - p 0.065; sh = p 0.035; sw = p 0.30 in
      \<lparr> path_c = True,
        path_v = [(cx - sw, scarf_y - sh),
                  (cx, scarf_y - sh * 1.8),
                  (cx + sw, scarf_y - sh),
                  (cx + sw * 0.5, scarf_y + sh * 2),
                  (cx + sw * 0.65, scarf_y + sh * 5),
                  (cx + sw * 0.25, scarf_y + sh * 3),
                  (cx - sw * 0.3, scarf_y + sh * 2)],
        path_i = [(0, sh * 0.5),
                  (- sw * 0.4, 0),
                  (sw * 0.4, 0),
                  (sw * 0.15, - sh * 1.5),
                  (sw * 0.1, - sh * 1.0),
                  (sw * 0.1, sh * 0.8),
                  (- sw * 0.3, sh * 0.3)],
        path_o = [(0, - sh * 0.5),
                  (sw * 0.4, 0),
                  (sw * 0.05, sh * 1.0),
                  (sw * 0.1, sh * 1.2),
                  (- sw * 0.15, sh * 0.8),
                  (- sw * 0.15, - sh * 1.0),
                  (- sw * 0.4, - sh * 0.3)] \<rparr>)"

text \<open>
  None of the five constructors checks an argument or contains a \<open>raise\<close>: for numeric
  arguments each call returns its dict. Seen as fallible operations of the path builder,
  with the error of the specification as the only failure, they are therefore:
\<close>

datatype geometry_error = InvalidGeometry

datatype shape_intent =
    Ellipse real real real real
  | EggShape real real real real
  | RoundedTriangle real real real real
  | Flipper real real real real real real
  | ScarfWrap real real

fun build_shape :: "shape_intent \<Rightarrow> geometry_error + lottie_path" where
  "build_shape (Ellipse cx cy rx ry) = Inr (ellipse_bezier_path cx cy rx ry)"
| "build_shape (EggShape cx cy body_w body_h) = Inr (egg_shape_path cx cy body_w body_h)"
| "build_shape (RoundedTriangle cx cy w h) = Inr (rounded_triangle_path cx cy w h)"
| "build_shape (Flipper cx cy side wing_w wing_h angle_deg) =
     Inr (wing_path cx cy side wing_w wing_h angle_deg)"
| "build_shape (ScarfWrap cx cy) = Inr (scarf_path cx cy)"

text \<open>The size parameters of an intent (\<open>rx\<close>, \<open>ry\<close>, width, height); the scarf has none.\<close>

fun size_params :: "shape_intent \<Rightarrow> real list" where
  "size_params (Ellipse cx cy rx ry) = [rx, ry]"
| "size_params (EggShape cx cy body_w body_h) = [body_w, body_h]"
| "size_params (RoundedTriangle cx cy w h) = [w, h]"
| "size_params (Flipper cx cy side wing_w wing_h angle_deg) = [wing_w, wing_h]"
| "size_params (ScarfWrap cx cy) = []"

section \<open>Paths in the vector and raster backends\<close>

text \<open>
  \<open>generate_nudgy_svg.py\<close> writes a path as the SVG commands \<open>M\<close>, \<open>C\<close> and \<open>Z\<close>;
  \<open>generate_app_icon_v2.py\<close> issues the Cairo calls \<open>move_to\<close>, \<open>curve_to\<close> and
  \<open>close_path\<close>. Both are the same three commands with absolute control points. The SVG
  generator prints each coordinate through \<open>fmt\<close> (two decimals); every coordinate of
  the body outline below is a multiple of \<open>0.01\<close>, which \<open>fmt\<close> prints as it is.
\<close>

datatype path_cmd = MoveTo point | CurveTo point point point | ClosePath

definition body_path :: "path_cmd list" where
  "body_path =
     (let body_w = p 0.44; body_h = p 0.48; body_cy = CY + p 0.08;
          top_x = CX; top_y = body_cy - body_h * 0.85 in
      [MoveTo (top_x, top_y),
       CurveTo (CX + body_w * 0.6, top_y)
               (CX + body_w * 1.1, body_cy - body_h * 0.15)
               (CX + body_w * 0.95, body_cy + body_h * 0.5),
       CurveTo (CX + body_w * 0.85, body_cy + body_h * 0.85)
               (CX + body_w * 0.4, body_cy + body_h * 1.0)
               (CX, body_cy + body_h * 0.95),
       CurveTo (CX - body_w * 0.4, body_cy + body_h * 1.0)
               (CX - body_w * 0.85, body_cy + body_h * 0.85)
               (CX - body_w * 0.95, body_cy + body_h * 0.5),
       CurveTo (CX - body_w * 1.1, body_cy - body_h * 0.15)
               (CX - body_w * 0.6, top_y)
               (top_x, top_y),
       ClosePath])"

text \<open>
  The path that \<open>draw_body_shape(ctx, cx, cy, psize)\<close> of the icon generator hands to
  Cairo before it fills it.
\<close>

definition draw_body_shape :: "real \<Rightarrow> real \<Rightarrow> real \<Rightarrow> path_cmd list" where
  "draw_body_shape cx cy psize =
     (let body_w = psize * 0.44; body_h = psize * 0.48; body_cy = cy + psize * 0.08;
          top_x = cx; top_y = body_cy - body_h * 0.85 in
      [MoveTo (top_x, top_y),
       CurveTo (cx + body_w * 0.6, top_y)
               (cx + body_w * 1.1, body_cy - body_h * 0.15)
               (cx + body_w * 0.95, body_cy + body_h * 0.5),
       CurveTo (cx + body_w * 0.85, body_cy + body_h * 0.85)
               (cx + body_w * 0.4, body_cy + body_h * 1.0)
               (cx, body_cy + body_h * 0.95),
       CurveTo (cx - body_w * 0.4, body_cy + body_h * 1.0)
               (cx - body_w * 0.85, body_cy + body_h * 0.85)
               (cx - body_w * 0.95, body_cy + body_h * 0.5),
       CurveTo (cx - body_w * 1.1, body_cy - body_h * 0.15)
               (cx - body_w * 0.6, top_y)
               (top_x, top_y),
       ClosePath])"

text \<open>The body of the animation: \<open>build_body_layer\<close> calls \<open>egg_shape_path\<close> with these arguments.\<close>

definition build_body_layer_path :: lottie_path where
  "build_body_layer_path =
     (let body_w = p 0.44; body_h = p 0.48; body_cy = CY + p 0.08 in
      egg_shape_path CX body_cy body_w body_h)"

section \<open>The curve a path describes\<close>

text \<open>
  Both representations denote a sequence of cubic bezier segments, each given by its four
  control points. In the command form a \<open>C\<close> runs from the current point; \<open>Z\<close> closes
  the outline. In the vertex and tangent form the segment from vertex \<open>k\<close> to the next
  vertex has the control points \<open>v[k] + o[k]\<close> and \<open>v[k+1] + i[k+1]\<close>, and a closed path
  has a last segment back to vertex \<open>0\<close>.
\<close>

type_synonym cubic = "point \<times> point \<times> point \<times> point"

definition padd :: "point \<Rightarrow> point \<Rightarrow> point" where
  "padd a b = (fst a + fst b, snd a + snd b)"

fun cmd_segments :: "point \<Rightarrow> path_cmd list \<Rightarrow> cubic list" where
  "cmd_segments cur [] = []"
| "cmd_segments cur (MoveTo q # cs) = cmd_segments q cs"
| "cmd_segments cur (CurveTo c1 c2 q # cs) = (cur, c1, c2, q) # cmd_segments q cs"
| "cmd_segments cur (ClosePath # cs) = cmd_segments cur cs"

definition lottie_segments :: "lottie_path \<Rightarrow> cubic list" where
  "lottie_segments P =
     (let vs = path_v P; ins = path_i P; outs = path_o P;
          segs = map (\<lambda>((a, out), (b, inn)). (a, padd a out, padd b inn, b))
                     (zip (zip vs outs) (zip (rotate1 vs) (rotate1 ins)))
      in if path_c P then segs else butlast segs)"

definition bez :: "real \<Rightarrow> real \<Rightarrow> real \<Rightarrow> real \<Rightarrow> real \<Rightarrow> real" where
  "bez a b c d u =
     (1 - u) ^ 3 * a + 3 * (1 - u) ^ 2 * u * b + 3 * (1 - u) * u ^ 2 * c + u ^ 3 * d"

definition cubic_at :: "cubic \<Rightarrow> real \<Rightarrow> point" where
  "cubic_at sg u =
     (case sg of (a, b, c, d) \<Rightarrow>
        (bez (fst a) (fst b) (fst c) (fst d) u, bez (snd a) (snd b) (snd c) (snd d) u))"

text \<open>A point lies on the outline when some segment passes through it.\<close>

definition on_curve :: "cubic list \<Rightarrow> point \<Rightarrow> bool" where
  "on_curve segs q = (\<exists>sg \<in> set segs. \<exists>u. 0 \<le> u \<and> u \<le> 1 \<and> cubic_at sg u = q)"

text \<open>The box \<open>[x0, x1] \<times> [y0, y1]\<close> is the bounding box of an outline: it contains every
  point of it and each of its four sides is touched.\<close>

definition in_box :: "real \<Rightarrow> real \<Rightarrow> real \<Rightarrow> real \<Rightarrow> point \<Rightarrow> bool" where
  "in_box x0 x1 y0 y1 q = (x0 \<le> fst q \<and> fst q \<le> x1 \<and> y0 \<le> snd q \<and> snd q \<le> y1)"

definition bounding_box :: "cubic list \<Rightarrow> real \<Rightarrow> real \<Rightarrow> real \<Rightarrow> real \<Rightarrow> bool" where
  "bounding_box segs x0 x1 y0 y1 =
     ((\<forall>q. on_curve segs q \<longrightarrow> in_box x0 x1 y0 y1 q) \<and>
      (\<exists>q. on_curve segs q \<and> fst q = x0) \<and> (\<exists>q. on_curve segs q \<and> fst q = x1) \<and>
      (\<exists>q. on_curve segs q \<and> snd q = y0) \<and> (\<exists>q. on_curve segs q \<and> snd q = y1))"

text \<open>Euclidean distance, the length of the closed polygon through a list of points.\<close>

definition pdist :: "point \<Rightarrow> point \<Rightarrow> real" where
  "pdist a b = sqrt ((fst a - fst b)\<^sup>2 + (snd a - snd b)\<^sup>2)"

definition polygon_length :: "point list \<Rightarrow> real" where
  "polygon_length vs = (\<Sum>(a, b) \<leftarrow> zip vs (rotate1 vs). pdist a b)"

section \<open>Animation keyframes\<close>

text \<open>
  A keyframe is the dict \<open>{"t": t, "s": val, "i": ei, "o": eo}\<close>; the closing keyframe of
  every track has no \<open>"i"\<close> and no \<open>"o"\<close> entry. An easing handle is the pair of its
  \<open>"x"\<close> and \<open>"y"\<close> lists.
\<close>

type_synonym ease = "real list \<times> real list"

record keyframe =
  kf_t :: int
  kf_s :: "real list"
  kf_i :: "ease option"
  kf_o :: "ease option"

text \<open>
  Every sway track of the source is built by the same loop:
  \<^verbatim>\<open>
    t = t0; direction = d0
    while t <= TOTAL_FRAMES:
        keyframes.append(kf(t, direction))
        t += half_cycle
        direction *= -1
  \<close>
  \<open>kf_loop tot half mk t direction acc\<close> is that loop with the keyframe constructor
  \<open>mk\<close>, the list built so far \<open>acc\<close>, and the two constants \<open>TOTAL_FRAMES\<close> and
  \<open>half_cycle\<close> as parameters. With \<open>half \<le> 0\<close> the Python loop never ends; the
  model then has no result (\<open>None\<close>).
\<close>

partial_function (option) kf_loop ::
  "int \<Rightarrow> int \<Rightarrow> (int \<Rightarrow> int \<Rightarrow> keyframe) \<Rightarrow> int \<Rightarrow> int \<Rightarrow> keyframe list \<Rightarrow> keyframe list option"
where
  "kf_loop tot half mk t direction acc =
     (if t \<le> tot
      then kf_loop tot half mk (t + half) (direction * (- 1)) (acc @ [mk t direction])
      else Some acc)"

text \<open>The position keyframe of the sway loops, and the ease handles written inline there.\<close>

definition pos_ease_in :: ease where "pos_ease_in = ([42/100, 42/100, 42/100], [1, 1, 1])"
definition pos_ease_out :: ease where "pos_ease_out = ([58/100, 58/100, 58/100], [0, 0, 0])"

definition pos_kf :: "real \<times> real \<times> real \<Rightarrow> real \<Rightarrow> int \<Rightarrow> int \<Rightarrow> keyframe" where
  "pos_kf static_val sway_amp t direction =
     (case static_val of (x, y, z) \<Rightarrow>
        \<lparr> kf_t = t, kf_s = [x + sway_amp * of_int direction, y, z],
          kf_i = Some pos_ease_in, kf_o = Some pos_ease_out \<rparr>)"

text \<open>
  The per-layer sway of \<open>generate_lottie\<close> (applied to every layer whose position is
  static): the loop from \<open>t = 0\<close>, \<open>direction = 1\<close>, then the appended keyframe
  \<open>{"t": TOTAL_FRAMES, "s": [static_val[0] + sway_amp, static_val[1], static_val[2]]}\<close>.
  The source fixes \<open>half_cycle = 45\<close>, \<open>sway_amp = 2.0\<close> and \<open>TOTAL_FRAMES = 210\<close>;
  \<open>layer_sway_kfs\<close> takes them as parameters and \<open>layer_sway\<close> is the source's instance.
\<close>

definition layer_sway_kfs ::
  "int \<Rightarrow> int \<Rightarrow> real \<Rightarrow> real \<times> real \<times> real \<Rightarrow> keyframe list option" where
  "layer_sway_kfs tot half_cycle sway_amp static_val =
     (case kf_loop tot half_cycle (pos_kf static_val sway_amp) 0 1 [] of
        None \<Rightarrow> None
      | Some pos_kfs \<Rightarrow>
          Some (pos_kfs @
            [case static_val of (x, y, z) \<Rightarrow>
               \<lparr> kf_t = tot, kf_s = [x + sway_amp, y, z], kf_i = None, kf_o = None \<rparr>]))"

definition layer_sway :: "real \<times> real \<times> real \<Rightarrow> keyframe list option" where
  "layer_sway static_val = layer_sway_kfs TOTAL_FRAMES 45 2 static_val"

text \<open>
  \<open>build_body_sway_layer\<close>: the same loop for the position, with the canvas centre as
  the base value, and a second loop for a rotation of \<open>0.8 * direction\<close> degrees.
\<close>

definition rot_ease_in :: ease where "rot_ease_in = ([42/100], [1])"
definition rot_ease_out :: ease where "rot_ease_out = ([58/100], [0])"

definition rot_kf :: "int \<Rightarrow> int \<Rightarrow> keyframe" where
  "rot_kf t direction =
     \<lparr> kf_t = t, kf_s = [0.8 * of_int direction],
       kf_i = Some rot_ease_in, kf_o = Some rot_ease_out \<rparr>"

definition body_sway_pos :: "keyframe list option" where
  "body_sway_pos =
     (let sway_amp = 2; half_cycle = 45 in
      case kf_loop TOTAL_FRAMES half_cycle (pos_kf (W / 2, H / 2, 0) sway_amp) 0 1 [] of
        None \<Rightarrow> None
      | Some pos_keyframes \<Rightarrow>
          Some (pos_keyframes @
            [\<lparr> kf_t = TOTAL_FRAMES, kf_s = [W / 2 + sway_amp, H / 2, 0],
               kf_i = None, kf_o = None \<rparr>]))"

definition body_sway_rot :: "keyframe list option" where
  "body_sway_rot =
     (let half_cycle = 45 in
      case kf_loop TOTAL_FRAMES half_cycle rot_kf 0 1 [] of
        None \<Rightarrow> None
      | Some rot_keyframes \<Rightarrow>
          Some (rot_keyframes @
            [\<lparr> kf_t = TOTAL_FRAMES, kf_s = [0.8], kf_i = None, kf_o = None \<rparr>]))"

text \<open>
  \<open>build_scarf_counter_sway\<close>: the loop starts at \<open>t = phase_offset\<close> with
  \<open>direction = -1\<close>; the appended keyframe holds the canvas centre.
\<close>

definition scarf_counter_sway_kfs :: "keyframe list option" where
  "scarf_counter_sway_kfs =
     (let half_cycle = 45; phase_offset = 8; sway_amp = 1.5 in
      case kf_loop TOTAL_FRAMES half_cycle (pos_kf (W / 2, H / 2, 0) sway_amp)
             phase_offset (- 1) [] of
        None \<Rightarrow> None
      | Some pos_keyframes \<Rightarrow>
          Some (pos_keyframes @
            [\<lparr> kf_t = TOTAL_FRAMES, kf_s = [W / 2, H / 2, 0], kf_i = None, kf_o = None \<rparr>]))"

text \<open>
  The helper \<open>sway_keyframes(axis, amplitude, frames_per_half_cycle)\<close>: the value is on the
  first component when \<open>axis == 'x'\<close> and on the second otherwise; the appended keyframe
  holds \<open>[0, 0]\<close>. \<open>sway_keyframes_upto\<close> has \<open>TOTAL_FRAMES\<close> as a parameter.
\<close>

definition smooth_ease :: "ease \<times> ease" where
  "smooth_ease = (([0.42], [1]), ([0.58], [0]))"

definition sway_kf :: "string \<Rightarrow> real \<Rightarrow> int \<Rightarrow> int \<Rightarrow> keyframe" where
  "sway_kf axis amplitude t direction =
     \<lparr> kf_t = t,
       kf_s = (if axis = ''x'' then [amplitude * of_int direction, 0]
               else [0, amplitude * of_int direction]),
       kf_i = Some (fst smooth_ease), kf_o = Some (snd smooth_ease) \<rparr>"

definition sway_keyframes_upto :: "int \<Rightarrow> string \<Rightarrow> real \<Rightarrow> int \<Rightarrow> keyframe list option" where
  "sway_keyframes_upto tot axis amplitude frames_per_half_cycle =
     (case kf_loop tot frames_per_half_cycle (sway_kf axis amplitude) 0 1 [] of
        None \<Rightarrow> None
      | Some keyframes \<Rightarrow>
          Some (keyframes @ [\<lparr> kf_t = tot, kf_s = [0, 0], kf_i = None, kf_o = None \<rparr>]))"

definition sway_keyframes :: "string \<Rightarrow> real \<Rightarrow> int \<Rightarrow> keyframe list option" where
  "sway_keyframes axis amplitude frames_per_half_cycle =
     sway_keyframes_upto TOTAL_FRAMES axis amplitude frames_per_half_cycle"

section \<open>Layers and the animation document\<close>

text \<open>
  A transform property is \<open>{"a": 0, "k": value}\<close> (static) or \<open>{"a": 1, "k": keyframes}\<close>
  (animated). Of a layer the embedding keeps the name and the transform; shapes, fills and
  the constant fields of \<open>make_shape_layer\<close> carry no animation.
\<close>

datatype anim_prop = Static "real list" | Animated "keyframe list"

record transform =
  tr_o :: anim_prop
  tr_r :: anim_prop
  tr_p :: anim_prop
  tr_a :: anim_prop
  tr_s :: anim_prop

record layer =
  nm :: string
  ks :: transform

definition default_transform :: transform where
  "default_transform =
     \<lparr> tr_o = Static [100], tr_r = Static [0], tr_p = Static [W / 2, H / 2, 0],
       tr_a = Static [W / 2, H / 2, 0], tr_s = Static [100, 100, 100] \<rparr>"

definition make_shape_layer :: "string \<Rightarrow> transform option \<Rightarrow> layer" where
  "make_shape_layer name tr =
     \<lparr> nm = name, ks = (case tr of None \<Rightarrow> default_transform | Some t \<Rightarrow> t) \<rparr>"

definition build_feet_layer :: layer where "build_feet_layer = make_shape_layer ''Feet'' None"
definition build_body_layer :: layer where "build_body_layer = make_shape_layer ''Body'' None"
definition build_belly_layer :: layer where "build_belly_layer = make_shape_layer ''Belly'' None"

definition build_wing_layer :: "int \<Rightarrow> string \<Rightarrow> layer" where
  "build_wing_layer side name = make_shape_layer name (Some default_transform)"

definition build_scarf_layer :: layer where "build_scarf_layer = make_shape_layer ''Scarf'' None"

definition tilted :: transform where
  "tilted = default_transform \<lparr> tr_r := Static [3] \<rparr>"

definition build_head_layer :: layer where
  "build_head_layer = make_shape_layer ''Head'' (Some tilted)"
definition build_face_patch_layer :: layer where
  "build_face_patch_layer = make_shape_layer ''Face Patch'' (Some tilted)"
definition build_beak_layer :: layer where
  "build_beak_layer = make_shape_layer ''Beak'' (Some tilted)"
definition build_blush_layer :: layer where
  "build_blush_layer = make_shape_layer ''Blush'' (Some tilted)"


definition blink_frame_1 :: int where "blink_frame_1 = 100"
definition blink_frame_2 :: int where "blink_frame_2 = 195"

definition ei_fast :: ease where "ei_fast = ([0.33], [1])"
definition eo_fast :: ease where "eo_fast = ([0.67], [0])"

definition blink_kf :: "int \<Rightarrow> real list \<Rightarrow> keyframe" where
  "blink_kf t val = \<lparr> kf_t = t, kf_s = val, kf_i = Some ei_fast, kf_o = Some eo_fast \<rparr>"

definition blink_keyframes :: "keyframe list" where
  "blink_keyframes =
     [blink_kf 0 [100, 100, 100],
      blink_kf (blink_frame_1 - 2) [100, 100, 100],
      blink_kf blink_frame_1 [100, 15, 100],
      blink_kf (blink_frame_1 + 1) [100, 15, 100],
      blink_kf (blink_frame_1 + 4) [100, 100, 100],
      blink_kf (blink_frame_2 - 2) [100, 100, 100],
      blink_kf blink_frame_2 [100, 15, 100],
      blink_kf (blink_frame_2 + 1) [100, 15, 100],
      blink_kf (blink_frame_2 + 4) [100, 100, 100],
      \<lparr> kf_t = TOTAL_FRAMES, kf_s = [100, 100, 100], kf_i = None, kf_o = None \<rparr>]"

definition build_eye_layer :: "int \<Rightarrow> string \<Rightarrow> layer" where
  "build_eye_layer side name =
     make_shape_layer name
       (Some (default_transform \<lparr> tr_r := Static [3], tr_s := Animated blink_keyframes \<rparr>))"

text \<open>
  \<open>generate_lottie\<close>: the scarf layer gets the counter-sway transform; then every layer
  whose position is still static gets the sway track built from its \<open>static_val\<close>. A
  layer whose position is already animated is left as it is. Reading \<open>static_val[2]\<close> of a
  shorter list would raise; every position here comes from \<open>default_transform\<close> and has
  three components, and the model has no result for any other.
\<close>

definition build_scarf_counter_sway :: "transform option" where
  "build_scarf_counter_sway =
     (case scarf_counter_sway_kfs of
        None \<Rightarrow> None
      | Some pos_keyframes \<Rightarrow> Some (default_transform \<lparr> tr_p := Animated pos_keyframes \<rparr>))"

definition add_sway :: "layer \<Rightarrow> layer option" where
  "add_sway l =
     (case tr_p (ks l) of
        Animated kfs \<Rightarrow> Some l
      | Static static_val \<Rightarrow>
          (case static_val of
             x # y # z # others \<Rightarrow>
               (case layer_sway (x, y, z) of
                  None \<Rightarrow> None
                | Some pos_kfs \<Rightarrow> Some (l \<lparr> ks := (ks l) \<lparr> tr_p := Animated pos_kfs \<rparr> \<rparr>))
           | _ \<Rightarrow> None))"

record lottie =
  doc_fr :: int
  doc_ip :: int
  doc_op :: int
  doc_w :: real
  doc_h :: real
  doc_layers :: "layer list"

definition generate_lottie :: "lottie option" where
  "generate_lottie =
     (let feet = build_feet_layer;
          body = build_body_layer;
          belly = build_belly_layer;
          left_wing = build_wing_layer (- 1) ''Left Wing'';
          right_wing = build_wing_layer 1 ''Right Wing'';
          scarf = build_scarf_layer;
          head = build_head_layer;
          face_patch = build_face_patch_layer;
          left_eye = build_eye_layer (- 1) ''Left Eye'';
          right_eye = build_eye_layer 1 ''Right Eye'';
          beak = build_beak_layer;
          blush = build_blush_layer
      in case build_scarf_counter_sway of
           None \<Rightarrow> None
         | Some scarf_ks \<Rightarrow>
             (case those (map add_sway
                     [blush, beak, right_eye, left_eye, face_patch, head,
                      scarf \<lparr> ks := scarf_ks \<rparr>,
                      right_wing, left_wing, belly, body, feet]) of
                None \<Rightarrow> None
              | Some layers \<Rightarrow>
                  Some \<lparr> doc_fr = FPS, doc_ip = 0, doc_op = TOTAL_FRAMES,
                         doc_w = W, doc_h = H, doc_layers = layers \<rparr>))"

text \<open>The tracks of a document: the animated properties of its layers, with the layer name.\<close>

definition layer_tracks :: "layer \<Rightarrow> (string \<times> keyframe list) list" where
  "layer_tracks l =
     concat (map (\<lambda>pr. case pr of Animated kfs \<Rightarrow> [(nm l, kfs)] | Static val \<Rightarrow> [])
               [tr_o (ks l), tr_r (ks l), tr_p (ks l), tr_a (ks l), tr_s (ks l)])"

definition doc_tracks :: "lottie \<Rightarrow> (string \<times> keyframe list) list" where
  "doc_tracks doc = concat (map layer_tracks (doc_layers doc))"

section \<open>What a player shows at a frame\<close>

text \<open>
  The document is declarative: a player holds the first keyframe's value up to its time,
  holds the last keyframe's value from its time on, and between two neighbouring keyframes
  moves from the first value to the second along the easing curve of the pair. The easing
  curve is the player's; here it is any function \<open>ease\<close> of the two keyframes and the
  fraction of time elapsed between them.
\<close>

definition lerp :: "real list \<Rightarrow> real list \<Rightarrow> real \<Rightarrow> real list" where
  "lerp a b u = map2 (\<lambda>x y. x + (y - x) * u) a b"

fun interp :: "(keyframe \<Rightarrow> keyframe \<Rightarrow> real \<Rightarrow> real) \<Rightarrow> keyframe \<Rightarrow> keyframe list \<Rightarrow> real \<Rightarrow> real list" where
  "interp ease k [] t = kf_s k"
| "interp ease k (k2 # rest) t =
     (if t < of_int (kf_t k2)
      then (if t \<le> of_int (kf_t k) then kf_s k
            else lerp (kf_s k) (kf_s k2)
                   (ease k k2 ((t - of_int (kf_t k)) / (of_int (kf_t k2) - of_int (kf_t k)))))
      else interp ease k2 rest t)"

definition track_value :: "(keyframe \<Rightarrow> keyframe \<Rightarrow> real \<Rightarrow> real) \<Rightarrow> keyframe list \<Rightarrow> real \<Rightarrow> real list" where
  "track_value ease kfs t = (case kfs of [] \<Rightarrow> [] | k # rest \<Rightarrow> interp ease k rest t)"

text \<open>The loop seam: the values at frame \<open>0\<close> and at frame \<open>TOTAL_FRAMES\<close> agree within \<open>1e-3\<close>.\<close>

definition seam_ok :: "(keyframe \<Rightarrow> keyframe \<Rightarrow> real \<Rightarrow> real) \<Rightarrow> keyframe list \<Rightarrow> bool" where
  "seam_ok ease kfs =
     list_all2 (\<lambda>a b. \<bar>a - b\<bar> \<le> 1 / 1000)
       (track_value ease kfs 0) (track_value ease kfs (of_int TOTAL_FRAMES))"

section \<open>Embedding images into a downloaded animation (\<open>embed_images.py\<close>)\<close>

text \<open>
  An asset is a JSON object. A value is a string, or something else (a number, \<open>null\<close>,
  \<dots>), kept with the text Python prints for it. The archive is the list of its entries in
  order; \<open>namelist\<close> lists the names and \<open>read\<close> returns the bytes of the last entry of
  a name, raising \<open>KeyError\<close> when there is none. \<open>os.path.splitext\<close> followed by
  \<open>lower\<close>, and \<open>base64.b64encode\<close> followed by \<open>decode\<close>, are library functions
  and are parameters of the model. The script prints its report; the model returns the
  printed lines.
\<close>

datatype jval = JStr string | JOther string

type_synonym asset = "string \<rightharpoonup> jval"
type_synonym archive = "(string \<times> nat list) list"

datatype py_error = KeyError | TypeError

datatype log_line =
    AssetLine string string string string
  | Embedded string nat
  | NotFound string
  | AvailableFiles "string list"

definition py_str :: "jval \<Rightarrow> string" where
  "py_str v = (case v of JStr s \<Rightarrow> s | JOther s \<Rightarrow> s)"

definition get_or :: "asset \<Rightarrow> string \<Rightarrow> jval \<Rightarrow> jval" where
  "get_or a key dflt = (case a key of None \<Rightarrow> dflt | Some v \<Rightarrow> v)"

definition namelist :: "archive \<Rightarrow> string list" where
  "namelist z = map fst z"

definition z_read :: "archive \<Rightarrow> string \<Rightarrow> py_error + nat list" where
  "z_read z name = (case map_of (rev z) name of None \<Rightarrow> Inl KeyError | Some bytes \<Rightarrow> Inr bytes)"

definition image_files_of :: "archive \<Rightarrow> string list" where
  "image_files_of z = filter (\<lambda>n. take 7 n = ''images/'') (namelist z)"

definition embed_asset ::
  "(string \<Rightarrow> string) \<Rightarrow> (nat list \<Rightarrow> string) \<Rightarrow> archive \<Rightarrow> string list \<Rightarrow> asset
   \<Rightarrow> py_error + (asset \<times> log_line list)" where
  "embed_asset splitext_lower b64encode z image_files a =
     (let asset_id = get_or a ''id'' (JStr '''');
          pv = get_or a ''p'' (JStr '''');
          u = get_or a ''u'' (JStr '''');
          line = AssetLine (py_str asset_id) (py_str pv) (py_str u)
                   (py_str (get_or a ''e'' (JOther ''0'')));
          possible = ''images/'' @ py_str pv
      in if possible \<in> set image_files
         then (case z_read z possible of
                 Inl e \<Rightarrow> Inl e
               | Inr img_data \<Rightarrow>
                   (case pv of
                      JOther s \<Rightarrow> Inl TypeError
                    | JStr ps \<Rightarrow>
                        (let ext = splitext_lower ps;
                             mime = (if ext = ''.webp'' then ''image/webp''
                                     else if ext = ''.png'' then ''image/png''
                                     else ''image/png'');
                             b64 = b64encode img_data
                         in Inr (a(''u'' \<mapsto> JStr '''',
                                   ''p'' \<mapsto> JStr (''data:'' @ mime @ '';base64,'' @ b64),
                                   ''e'' \<mapsto> JOther ''1''),
                                 [line, Embedded possible (length img_data)]))))
         else Inr (a, [line, NotFound possible, AvailableFiles image_files]))"

fun embed_assets ::
  "(string \<Rightarrow> string) \<Rightarrow> (nat list \<Rightarrow> string) \<Rightarrow> archive \<Rightarrow> string list \<Rightarrow> asset list
   \<Rightarrow> py_error + (asset list \<times> log_line list)" where
  "embed_assets sx b64 z image_files [] = Inr ([], [])"
| "embed_assets sx b64 z image_files (a # rest) =
     (case embed_asset sx b64 z image_files a of
        Inl e \<Rightarrow> Inl e
      | Inr (a', lines) \<Rightarrow>
          (case embed_assets sx b64 z image_files rest of
             Inl e \<Rightarrow> Inl e
           | Inr (rest', lines') \<Rightarrow> Inr (a' # rest', lines @ lines')))"

definition embed_images :: "(string \<Rightarrow> string) \<Rightarrow> (nat list \<Rightarrow> string) \<Rightarrow> archive \<Rightarrow> asset list
   \<Rightarrow> py_error + (asset list \<times> log_line list)" where
  "embed_images sx b64 z assets = embed_assets sx b64 z (image_files_of z) assets"

text \<open>The embedded form of an asset, and the assets the source can read: \<open>p\<close> is a string
  when present.\<close>

definition embedded_form :: "(string \<Rightarrow> string) \<Rightarrow> (nat list \<Rightarrow> string) \<Rightarrow> nat list \<Rightarrow> asset \<Rightarrow> asset" where
  "embedded_form sx b64 img a =
     a(''u'' \<mapsto> JStr '''',
       ''p'' \<mapsto> JStr (''data:'' @ (if sx (py_str (get_or a ''p'' (JStr ''''))) = ''.webp''
                                  then ''image/webp'' else ''image/png'')
                        @ '';base64,'' @ b64 img),
       ''e'' \<mapsto> JOther ''1'')"

definition p_is_string :: "asset \<Rightarrow> bool" where
  "p_is_string a = (case a ''p'' of Some (JOther s) \<Rightarrow> False | _ \<Rightarrow> True)"

section \<open>Auxiliary definitions\<close>

text \<open>The keyframes of \<open>n\<close> rounds of the sway loop, and the number of rounds it runs.\<close>

definition loop_kfs :: "int \<Rightarrow> (int \<Rightarrow> int \<Rightarrow> keyframe) \<Rightarrow> int \<Rightarrow> int \<Rightarrow> nat \<Rightarrow> keyframe list" where
  "loop_kfs half mk t d n = map (\<lambda>k. mk (t + int k * half) (d * (- 1) ^ k)) [0..<n]"

definition loop_count :: "int \<Rightarrow> int \<Rightarrow> int \<Rightarrow> nat" where
  "loop_count tot half t = (if t \<le> tot then nat ((tot - t) div half) + 1 else 0)"

text \<open>The two position tracks of the generated document, written out.\<close>

definition body_sway_track :: "keyframe list" where
  "body_sway_track =
     [pos_kf (200, 230, 0) 2 0 1, pos_kf (200, 230, 0) 2 45 (- 1), pos_kf (200, 230, 0) 2 90 1,
      pos_kf (200, 230, 0) 2 135 (- 1), pos_kf (200, 230, 0) 2 180 1,
      \<lparr> kf_t = 210, kf_s = [202, 230, 0], kf_i = None, kf_o = None \<rparr>]"

definition scarf_track :: "keyframe list" where
  "scarf_track =
     [pos_kf (200, 230, 0) 1.5 8 (- 1), pos_kf (200, 230, 0) 1.5 53 1,
      pos_kf (200, 230, 0) 1.5 98 (- 1), pos_kf (200, 230, 0) 1.5 143 1,
      pos_kf (200, 230, 0) 1.5 188 (- 1),
      \<lparr> kf_t = 210, kf_s = [200, 230, 0], kf_i = None, kf_o = None \<rparr>]"

text \<open>
  \<open>rot\<close> takes coordinates relative to the pivot \<open>(wing_x, oy)\<close> and returns canvas
  coordinates. The rotation of a canvas point \<open>c\<close> about a pivot is therefore \<open>rot\<close>
  applied to \<open>c\<close> minus the pivot; a tangent is rotated by \<open>rot_t\<close>. Applying both to
  a path rotates every vertex about the pivot and every tangent about the origin.
\<close>

definition rotate_about :: "real \<Rightarrow> point \<Rightarrow> point \<Rightarrow> point" where
  "rotate_about a piv c =
     rot (cos a) (sin a) (fst piv) (snd piv) (fst c - fst piv) (snd c - snd piv)"

definition rot_point :: "real \<Rightarrow> real \<Rightarrow> real \<Rightarrow> point \<Rightarrow> point" where
  "rot_point a wing_x oy q = rot (cos a) (sin a) wing_x oy (fst q) (snd q)"

definition rot_vector :: "real \<Rightarrow> point \<Rightarrow> point" where
  "rot_vector a q = rot_t (cos a) (sin a) (fst q) (snd q)"

definition transform_path :: "real \<Rightarrow> point \<Rightarrow> lottie_path \<Rightarrow> lottie_path" where
  "transform_path a piv P =
     \<lparr> path_c = path_c P,
       path_v = map (rotate_about a piv) (path_v P),
       path_i = map (rot_vector a) (path_i P),
       path_o = map (rot_vector a) (path_o P) \<rparr>"

definition wing_pivot :: "real \<Rightarrow> real \<Rightarrow> real \<Rightarrow> real \<Rightarrow> point" where
  "wing_pivot cx cy side wing_h = (cx + side * p 0.37, cy + p 0.02 - wing_h * 0.4)"

definition rot_cubic :: "real \<Rightarrow> real \<Rightarrow> real \<Rightarrow> cubic \<Rightarrow> cubic" where
  "rot_cubic a wx oy sg =
     (case sg of (q0, q1, q2, q3) \<Rightarrow>
        (rot_point a wx oy q0, rot_point a wx oy q1, rot_point a wx oy q2, rot_point a wx oy q3))"

text \<open>The key under which \<open>embed_images.py\<close> looks an asset's image up: \<open>images/<p>\<close>.\<close>

definition lookup_key :: "asset \<Rightarrow> string" where
  "lookup_key a = ''images/'' @ py_str (get_or a ''p'' (JStr ''''))"

section \<open>The sway loop in closed form\<close>

lemma kf_loop_done: "tot < t \<Longrightarrow> kf_loop tot half mk t d acc = Some acc"
  by (subst kf_loop.simps) simp

lemma kf_loop_step:
  "t \<le> tot \<Longrightarrow>
   kf_loop tot half mk t d acc = kf_loop tot half mk (t + half) (- d) (acc @ [mk t d])"
  by (subst kf_loop.simps) simp

lemma loop_kfs_Suc:
  "loop_kfs half mk t d (Suc n) = mk t d # loop_kfs half mk (t + half) (- d) n"
proof -
  have "[0..<Suc n] = 0 # map Suc [0..<n]"
    by (simp add: upt_conv_Cons map_Suc_upt del: upt_Suc)
  then show ?thesis
    by (simp add: loop_kfs_def comp_def algebra_simps del: upt_Suc)
qed

lemma loop_count_step:
  assumes "0 < half" "t \<le> tot"
  shows "loop_count tot half t = Suc (loop_count tot half (t + half))"
proof (cases "t + half \<le> tot")
  case False
  then have "(tot - t) div half = 0"
    using assms by simp
  with False assms show ?thesis by (simp add: loop_count_def)
next
  case True
  have "tot - t = (tot - (t + half)) + 1 * half" by simp
  then have "(tot - t) div half = ((tot - (t + half)) + 1 * half) div half" by simp
  also have "\<dots> = (tot - (t + half)) div half + 1"
    using assms by (subst div_mult_self1) simp_all
  finally have d: "(tot - t) div half = (tot - (t + half)) div half + 1" .
  have nn: "0 \<le> (tot - (t + half)) div half"
    using True assms by (simp add: pos_imp_zdiv_nonneg_iff)
  show ?thesis
    using True assms d nn by (simp add: loop_count_def)
qed

lemma kf_loop_closed:
  assumes "0 < half"
  shows "kf_loop tot half mk t d acc = Some (acc @ loop_kfs half mk t d (loop_count tot half t))"
  using assms
proof (induction "nat (tot - t + 1)" arbitrary: t d acc rule: less_induct)
  case less
  show ?case
  proof (cases "t \<le> tot")
    case False
    then show ?thesis by (simp add: kf_loop_done loop_kfs_def loop_count_def)
  next
    case True
    have lt: "nat (tot - (t + half) + 1) < nat (tot - t + 1)"
      using True less.prems by simp
    have "kf_loop tot half mk t d acc = kf_loop tot half mk (t + half) (- d) (acc @ [mk t d])"
      using True by (rule kf_loop_step)
    also have "\<dots> = Some ((acc @ [mk t d]) @
                      loop_kfs half mk (t + half) (- d) (loop_count tot half (t + half)))"
      using less.hyps[OF lt less.prems] .
    also have "\<dots> = Some (acc @ loop_kfs half mk t d (loop_count tot half t))"
      by (simp only: loop_count_step[OF less.prems True] loop_kfs_Suc append_assoc
                     append_Cons append_Nil)
    finally show ?thesis .
  qed
qed

section \<open>Sway keyframes: count, alternation and the closing keyframe\<close>

lemma loop_kfs_length: "length (loop_kfs half mk t d n) = n"
  by (simp add: loop_kfs_def)

lemma loop_kfs_nth:
  "k < n \<Longrightarrow> loop_kfs half mk t d n ! k = mk (t + int k * half) (d * (- 1) ^ k)"
  by (simp add: loop_kfs_def)

lemma layer_sway_kfs_closed:
  assumes "0 < half"
  shows "layer_sway_kfs tot half amp (x, y, z) =
           Some (loop_kfs half (pos_kf (x, y, z) amp) 0 1 (loop_count tot half 0) @
                 [\<lparr> kf_t = tot, kf_s = [x + amp, y, z], kf_i = None, kf_o = None \<rparr>])"
  by (simp add: layer_sway_kfs_def kf_loop_closed[OF assms])

lemma sway_keyframes_upto_closed:
  assumes "0 < half"
  shows "sway_keyframes_upto tot axis amp half =
           Some (loop_kfs half (sway_kf axis amp) 0 1 (loop_count tot half 0) @
                 [\<lparr> kf_t = tot, kf_s = [0, 0], kf_i = None, kf_o = None \<rparr>])"
  by (simp add: sway_keyframes_upto_def kf_loop_closed[OF assms])

lemmas upt_numeral_unfold = upt_rec [of _ "numeral _"] upt_rec [of _ "Suc _"]

lemma layer_sway_scenario:
  "layer_sway_kfs 210 45 2 (x, y, z) =
     Some [pos_kf (x, y, z) 2 0 1, pos_kf (x, y, z) 2 45 (- 1), pos_kf (x, y, z) 2 90 1,
           pos_kf (x, y, z) 2 135 (- 1), pos_kf (x, y, z) 2 180 1,
           \<lparr> kf_t = 210, kf_s = [x + 2, y, z], kf_i = None, kf_o = None \<rparr>]"
  by (simp add: layer_sway_kfs_closed loop_count_def loop_kfs_def upt_numeral_unfold)

lemma layer_sway_general:
  assumes "0 < half" and "0 \<le> tot"
  shows "\<exists>kfs. layer_sway_kfs tot half amp (x, y, z) = Some kfs \<and>
           length kfs = nat (tot div half) + 2 \<and>
           (\<forall>k \<le> nat (tot div half).
              kf_t (kfs ! k) = int k * half \<and> kf_s (kfs ! k) = [x + amp * (- 1) ^ k, y, z]) \<and>
           kf_t (last kfs) = tot \<and> kf_s (last kfs) = [x + amp, y, z]"
proof -
  let ?n = "nat (tot div half) + 1"
  let ?loop = "loop_kfs half (pos_kf (x, y, z) amp) 0 1 ?n"
  let ?closing = "\<lparr> kf_t = tot, kf_s = [x + amp, y, z], kf_i = None, kf_o = None \<rparr>"
  have cnt: "loop_count tot half 0 = ?n"
    using assms by (simp add: loop_count_def)
  have eq: "layer_sway_kfs tot half amp (x, y, z) = Some (?loop @ [?closing])"
    using layer_sway_kfs_closed[OF assms(1)] cnt by simp
  have nth: "kf_t ((?loop @ [?closing]) ! k) = int k * half \<and>
             kf_s ((?loop @ [?closing]) ! k) = [x + amp * (- 1) ^ k, y, z]"
    if "k \<le> nat (tot div half)" for k
  proof -
    have "k < ?n" using that by simp
    then have "(?loop @ [?closing]) ! k = pos_kf (x, y, z) amp (int k * half) ((- 1) ^ k)"
      by (simp add: nth_append loop_kfs_length loop_kfs_nth)
    then show ?thesis by (simp add: pos_kf_def)
  qed
  show ?thesis
    using eq nth by (intro exI[of _ "?loop @ [?closing]"]) (simp add: loop_kfs_length)
qed

lemma ceiling_vs_floor:
  assumes "0 < half"
  shows "(\<lceil>of_int tot / of_int half :: real\<rceil> = tot div half) = (half dvd tot)"
proof -
  have "\<lceil>of_int tot / of_int half :: real\<rceil> = - (- tot div half)"
    by (rule ceiling_divide_eq_div)
  also have "\<dots> = (if tot mod half = 0 then tot div half else tot div half + 1)"
    using assms by (simp add: zdiv_zminus1_eq_if)
  finally show ?thesis
    by (auto simp: dvd_eq_mod_eq_0)
qed

text \<open>
  C2 (as amended). For a half-cycle \<open>half > 0\<close> and a duration \<open>tot \<ge> 0\<close> the sway
  generator of \<open>generate_lottie\<close> returns, and returns exactly \<open>floor(tot/half) + 2\<close>
  keyframes, which is \<open>ceil(tot/half) + 2\<close> only when \<open>half\<close> divides \<open>tot\<close>. The
  keyframe number \<open>k\<close> of the loop is at time \<open>k * half\<close> and holds the base value plus
  \<open>amp * (-1)^k\<close>: the sign alternates at each multiple of \<open>half\<close>. The appended closing
  keyframe is at \<open>tot\<close> and holds the base value plus \<open>amp\<close>, the value of frame \<open>0\<close>,
  whatever the number of half-cycles. For \<open>amp = 2\<close>, \<open>half = 45\<close>, \<open>tot = 210\<close> these
  are the keyframes \<open>0 (+2)\<close>, \<open>45 (-2)\<close>, \<open>90 (+2)\<close>, \<open>135 (-2)\<close>, \<open>180 (+2)\<close> and the
  closing keyframe \<open>210 (+2)\<close>: six keyframes.
\<close>

theorem sway_keyframes_count_and_alternation:
  assumes "0 < half" and "0 \<le> tot"
  shows "(\<exists>kfs. layer_sway_kfs tot half amp (x, y, z) = Some kfs \<and>
            length kfs = nat (tot div half) + 2 \<and>
            (\<forall>k \<le> nat (tot div half).
               kf_t (kfs ! k) = int k * half \<and> kf_s (kfs ! k) = [x + amp * (- 1) ^ k, y, z]) \<and>
            kf_t (last kfs) = tot \<and> kf_s (last kfs) = [x + amp, y, z]) \<and>
         ((int (nat (tot div half) + 2) = \<lceil>of_int tot / of_int half :: real\<rceil> + 2) = (half dvd tot)) \<and>
         layer_sway_kfs 210 45 2 (x, y, z) =
           Some [pos_kf (x, y, z) 2 0 1, pos_kf (x, y, z) 2 45 (- 1), pos_kf (x, y, z) 2 90 1,
                 pos_kf (x, y, z) 2 135 (- 1), pos_kf (x, y, z) 2 180 1,
                 \<lparr> kf_t = 210, kf_s = [x + 2, y, z], kf_i = None, kf_o = None \<rparr>]"
proof -
  have nn: "0 \<le> tot div half"
    using assms by (simp add: pos_imp_zdiv_nonneg_iff)
  have "(int (nat (tot div half) + 2) = \<lceil>of_int tot / of_int half :: real\<rceil> + 2)
        = (\<lceil>of_int tot / of_int half :: real\<rceil> = tot div half)"
    using nn by auto
  then show ?thesis
    using layer_sway_general[OF assms] ceiling_vs_floor[OF assms(1)] layer_sway_scenario
    by simp
qed

theorem sway_keyframes_count_and_alternation_witness:
  "(0::int) < 45 \<and> (0::int) \<le> 210 \<and>
   map_option length (layer_sway_kfs 210 45 2 (200, 230, 0)) = Some 6 \<and>
   \<not> (45::int) dvd 210"
  using sway_keyframes_count_and_alternation[of 45 210 2 200 230 0]
  by auto

theorem sway_keyframes_count_counterexample:
  "map_option length (layer_sway_kfs 210 45 2 (200, 230, 0)) = Some 6 \<and>
   int 6 \<noteq> \<lceil>210 / 45 :: real\<rceil> + 2"
proof -
  have "\<lceil>210 / 45 :: real\<rceil> = 5"
    by (simp add: ceiling_eq_iff)
  then show ?thesis
    by (simp add: layer_sway_scenario)
qed

section \<open>Coincident keyframes at the end of a sway track\<close>

lemma loop_last_direction:
  assumes "odd (tot div half)" and "0 \<le> tot div half"
  shows "((- 1) ^ nat (tot div half) :: int) = - 1"
  using assms by (simp add: even_nat_iff)

lemma sway_keyframes_scenario_42:
  "sway_keyframes ''x'' 2 42 =
     Some [sway_kf ''x'' 2 0 1, sway_kf ''x'' 2 42 (- 1), sway_kf ''x'' 2 84 1,
           sway_kf ''x'' 2 126 (- 1), sway_kf ''x'' 2 168 1, sway_kf ''x'' 2 210 (- 1),
           \<lparr> kf_t = 210, kf_s = [0, 0], kf_i = None, kf_o = None \<rparr>]"
  by (simp add: sway_keyframes_def TOTAL_FRAMES_def FPS_def DURATION_SECONDS_def
        sway_keyframes_upto_closed loop_count_def loop_kfs_def upt_numeral_unfold)

text \<open>
  C10 (as amended). When \<open>half > 0\<close> divides \<open>tot \<ge> 0\<close>, each sway generator returns a
  track whose last two keyframes both have the time \<open>tot\<close>: the last keyframe of the
  loop and the appended closing keyframe. When \<open>tot / half\<close> is odd, the loop's keyframe
  holds the value for direction \<open>-1\<close>. In the position sway of \<open>generate_lottie\<close> the two
  values are then the base minus \<open>amp\<close> and the base plus \<open>amp\<close>; in the helper
  \<open>sway_keyframes\<close> they are \<open>-amp\<close> on the chosen axis and \<open>[0, 0]\<close>.
\<close>

theorem sway_closing_keyframe_coincides:
  assumes "0 < half" and "0 \<le> tot" and "half dvd tot"
  shows "(\<exists>kfs. layer_sway_kfs tot half amp (x, y, z) = Some kfs \<and>
            length kfs = nat (tot div half) + 2 \<and>
            kf_t (kfs ! nat (tot div half)) = tot \<and>
            kf_t (kfs ! (nat (tot div half) + 1)) = tot \<and>
            kf_s (kfs ! (nat (tot div half) + 1)) = [x + amp, y, z] \<and>
            (odd (tot div half) \<longrightarrow> kf_s (kfs ! nat (tot div half)) = [x - amp, y, z])) \<and>
         (\<exists>kfs. sway_keyframes_upto tot axis amp half = Some kfs \<and>
            length kfs = nat (tot div half) + 2 \<and>
            kf_t (kfs ! nat (tot div half)) = tot \<and>
            kf_t (kfs ! (nat (tot div half) + 1)) = tot \<and>
            kf_s (kfs ! (nat (tot div half) + 1)) = [0, 0] \<and>
            (odd (tot div half) \<longrightarrow>
               kf_s (kfs ! nat (tot div half)) = (if axis = ''x'' then [- amp, 0] else [0, - amp])))"
proof -
  let ?n = "nat (tot div half)"
  have nn: "0 \<le> tot div half"
    using assms by (simp add: pos_imp_zdiv_nonneg_iff)
  have cnt: "loop_count tot half 0 = ?n + 1"
    using assms by (simp add: loop_count_def)
  have time: "int ?n * half = tot"
    using assms nn by simp
  have dir: "((- 1) ^ ?n :: int) = - 1" if "odd (tot div half)"
    using that nn by (rule loop_last_direction)
  let ?c1 = "\<lparr> kf_t = tot, kf_s = [x + amp, y, z], kf_i = None, kf_o = None \<rparr>"
  let ?l1 = "loop_kfs half (pos_kf (x, y, z) amp) 0 1 (?n + 1)"
  have e1: "layer_sway_kfs tot half amp (x, y, z) = Some (?l1 @ [?c1])"
    using layer_sway_kfs_closed[OF assms(1)] cnt by simp
  have n1: "(?l1 @ [?c1]) ! ?n = pos_kf (x, y, z) amp tot ((- 1) ^ ?n)"
    using time by (simp add: nth_append loop_kfs_length loop_kfs_nth)
  have last1: "(?l1 @ [?c1]) ! (?n + 1) = ?c1"
    by (simp add: nth_append loop_kfs_length)
  have A: "\<exists>kfs. layer_sway_kfs tot half amp (x, y, z) = Some kfs \<and>
            length kfs = ?n + 2 \<and> kf_t (kfs ! ?n) = tot \<and> kf_t (kfs ! (?n + 1)) = tot \<and>
            kf_s (kfs ! (?n + 1)) = [x + amp, y, z] \<and>
            (odd (tot div half) \<longrightarrow> kf_s (kfs ! ?n) = [x - amp, y, z])"
  proof (intro exI[of _ "?l1 @ [?c1]"] conjI impI)
    show "layer_sway_kfs tot half amp (x, y, z) = Some (?l1 @ [?c1])" by (rule e1)
    show "length (?l1 @ [?c1]) = ?n + 2" by (simp add: loop_kfs_length)
    show "kf_t ((?l1 @ [?c1]) ! ?n) = tot" by (simp only: n1) (simp add: pos_kf_def)
    show "kf_t ((?l1 @ [?c1]) ! (?n + 1)) = tot" by (simp only: last1) simp
    show "kf_s ((?l1 @ [?c1]) ! (?n + 1)) = [x + amp, y, z]" by (simp only: last1) simp
    show "kf_s ((?l1 @ [?c1]) ! ?n) = [x - amp, y, z]" if "odd (tot div half)"
      by (simp only: n1 dir[OF that]) (simp add: pos_kf_def)
  qed
  let ?c2 = "\<lparr> kf_t = tot, kf_s = [0, 0], kf_i = None, kf_o = None \<rparr>"
  let ?l2 = "loop_kfs half (sway_kf axis amp) 0 1 (?n + 1)"
  have e2: "sway_keyframes_upto tot axis amp half = Some (?l2 @ [?c2])"
    using sway_keyframes_upto_closed[OF assms(1)] cnt by simp
  have n2: "(?l2 @ [?c2]) ! ?n = sway_kf axis amp tot ((- 1) ^ ?n)"
    using time by (simp add: nth_append loop_kfs_length loop_kfs_nth)
  have last2: "(?l2 @ [?c2]) ! (?n + 1) = ?c2"
    by (simp add: nth_append loop_kfs_length)
  have B: "\<exists>kfs. sway_keyframes_upto tot axis amp half = Some kfs \<and>
            length kfs = ?n + 2 \<and> kf_t (kfs ! ?n) = tot \<and> kf_t (kfs ! (?n + 1)) = tot \<and>
            kf_s (kfs ! (?n + 1)) = [0, 0] \<and>
            (odd (tot div half) \<longrightarrow>
               kf_s (kfs ! ?n) = (if axis = ''x'' then [- amp, 0] else [0, - amp]))"
  proof (intro exI[of _ "?l2 @ [?c2]"] conjI impI)
    show "sway_keyframes_upto tot axis amp half = Some (?l2 @ [?c2])" by (rule e2)
    show "length (?l2 @ [?c2]) = ?n + 2" by (simp add: loop_kfs_length)
    show "kf_t ((?l2 @ [?c2]) ! ?n) = tot" by (simp only: n2) (simp add: sway_kf_def)
    show "kf_t ((?l2 @ [?c2]) ! (?n + 1)) = tot" by (simp only: last2) simp
    show "kf_s ((?l2 @ [?c2]) ! (?n + 1)) = [0, 0]" by (simp only: last2) simp
    show "kf_s ((?l2 @ [?c2]) ! ?n) = (if axis = ''x'' then [- amp, 0] else [0, - amp])"
      if "odd (tot div half)"
      by (simp only: n2 dir[OF that]) (simp add: sway_kf_def)
  qed
  from A B show ?thesis by (rule conjI)
qed

theorem sway_closing_keyframe_coincides_witness:
  "(0::int) < 42 \<and> (0::int) \<le> 210 \<and> (42::int) dvd 210 \<and> odd ((210::int) div 42) \<and>
   map_option length (layer_sway_kfs 210 42 2 (200, 230, 0)) = Some 7 \<and>
   map_option length (sway_keyframes_upto 210 ''x'' 2 42) = Some 7"
proof -
  have h: "(0::int) < 42" "(0::int) \<le> 210" "(42::int) dvd 210" by simp_all
  have d: "nat ((210::int) div 42) = 5" by simp
  show ?thesis
    using sway_closing_keyframe_coincides[OF h, of 2 200 230 0 "''x''"] h
    by (auto simp: d)
qed

theorem sway_keyframes_closing_counterexample:
  "sway_keyframes ''x'' 2 42 =
     Some [\<lparr> kf_t = 0, kf_s = [2, 0], kf_i = Some ([0.42], [1]), kf_o = Some ([0.58], [0]) \<rparr>,
           \<lparr> kf_t = 42, kf_s = [- 2, 0], kf_i = Some ([0.42], [1]), kf_o = Some ([0.58], [0]) \<rparr>,
           \<lparr> kf_t = 84, kf_s = [2, 0], kf_i = Some ([0.42], [1]), kf_o = Some ([0.58], [0]) \<rparr>,
           \<lparr> kf_t = 126, kf_s = [- 2, 0], kf_i = Some ([0.42], [1]), kf_o = Some ([0.58], [0]) \<rparr>,
           \<lparr> kf_t = 168, kf_s = [2, 0], kf_i = Some ([0.42], [1]), kf_o = Some ([0.58], [0]) \<rparr>,
           \<lparr> kf_t = 210, kf_s = [- 2, 0], kf_i = Some ([0.42], [1]), kf_o = Some ([0.58], [0]) \<rparr>,
           \<lparr> kf_t = 210, kf_s = [0, 0], kf_i = None, kf_o = None \<rparr>] \<and>
   (42::int) dvd 210 \<and> odd ((210::int) div 42) \<and> [0, 0] \<noteq> [2, 0 :: real]"
  by (simp add: sway_keyframes_scenario_42 sway_kf_def smooth_ease_def)

section \<open>The blink track\<close>

lemma blink_keyframes_explicit:
  "blink_keyframes =
     [blink_kf 0 [100, 100, 100], blink_kf 98 [100, 100, 100], blink_kf 100 [100, 15, 100],
      blink_kf 101 [100, 15, 100], blink_kf 104 [100, 100, 100], blink_kf 193 [100, 100, 100],
      blink_kf 195 [100, 15, 100], blink_kf 196 [100, 15, 100], blink_kf 199 [100, 100, 100],
      \<lparr> kf_t = 210, kf_s = [100, 100, 100], kf_i = None, kf_o = None \<rparr>]"
  by (simp add: blink_keyframes_def blink_frame_1_def blink_frame_2_def TOTAL_FRAMES_def
        FPS_def DURATION_SECONDS_def)









section \<open>The loop seam\<close>

lemma total_frames_210: "TOTAL_FRAMES = 210"
  by (simp add: TOTAL_FRAMES_def FPS_def DURATION_SECONDS_def)

lemma layer_sway_centre: "layer_sway (200, 230, 0) = Some body_sway_track"
  by (simp add: layer_sway_def total_frames_210 layer_sway_scenario body_sway_track_def)

lemma scarf_counter_sway_kfs_explicit: "scarf_counter_sway_kfs = Some scarf_track"
  by (simp add: scarf_counter_sway_kfs_def total_frames_210 kf_loop_closed loop_count_def
        loop_kfs_def upt_numeral_unfold W_def H_def scarf_track_def)

lemma body_sway_pos_explicit: "body_sway_pos = Some body_sway_track"
  by (simp add: body_sway_pos_def total_frames_210 kf_loop_closed loop_count_def
        loop_kfs_def upt_numeral_unfold W_def H_def body_sway_track_def)

lemma body_sway_rot_explicit:
  "body_sway_rot =
     Some [rot_kf 0 1, rot_kf 45 (- 1), rot_kf 90 1, rot_kf 135 (- 1), rot_kf 180 1,
           \<lparr> kf_t = 210, kf_s = [0.8], kf_i = None, kf_o = None \<rparr>]"
  by (simp add: body_sway_rot_def total_frames_210 kf_loop_closed loop_count_def
        loop_kfs_def upt_numeral_unfold)

lemma add_sway_static:
  "tr_p (ks l) = Static [200, 230, 0] \<Longrightarrow>
   add_sway l = Some (l \<lparr> ks := (ks l) \<lparr> tr_p := Animated body_sway_track \<rparr> \<rparr>)"
  by (simp add: add_sway_def layer_sway_centre)

lemma add_sway_animated: "tr_p (ks l) = Animated kfs \<Longrightarrow> add_sway l = Some l"
  by (simp add: add_sway_def)

lemma generate_lottie_tracks:
  "\<exists>doc. generate_lottie = Some doc \<and>
     doc_tracks doc =
       [(''Blush'', body_sway_track), (''Beak'', body_sway_track),
        (''Right Eye'', body_sway_track), (''Right Eye'', blink_keyframes),
        (''Left Eye'', body_sway_track), (''Left Eye'', blink_keyframes),
        (''Face Patch'', body_sway_track), (''Head'', body_sway_track),
        (''Scarf'', scarf_track),
        (''Right Wing'', body_sway_track), (''Left Wing'', body_sway_track),
        (''Belly'', body_sway_track), (''Body'', body_sway_track), (''Feet'', body_sway_track)]"
  by (simp add: generate_lottie_def build_scarf_counter_sway_def scarf_counter_sway_kfs_explicit
        build_feet_layer_def build_body_layer_def build_belly_layer_def build_wing_layer_def
        build_scarf_layer_def build_head_layer_def build_face_patch_layer_def
        build_eye_layer_def build_beak_layer_def build_blush_layer_def tilted_def
        make_shape_layer_def default_transform_def W_def H_def add_sway_static add_sway_animated
        doc_tracks_def layer_tracks_def)

lemma body_sway_track_seam: "seam_ok ease body_sway_track"
  by (simp add: seam_ok_def total_frames_210 body_sway_track_def track_value_def pos_kf_def)

lemma blink_track_seam: "seam_ok ease blink_keyframes"
  by (simp add: seam_ok_def total_frames_210 blink_keyframes_explicit track_value_def blink_kf_def)

lemma scarf_track_values:
  "track_value ease scarf_track 0 = [198.5, 230, 0]"
  "track_value ease scarf_track 210 = [200, 230, 0]"
  by (simp_all add: scarf_track_def track_value_def pos_kf_def)

lemma scarf_track_no_seam: "\<not> seam_ok ease scarf_track"
  by (simp add: seam_ok_def total_frames_210 scarf_track_values)

text \<open>
  C1 (evaluation of the code where the claim fails). In the document that
  \<open>generate_lottie\<close> returns, the position track of the scarf layer has its first
  keyframe at \<open>t = 8\<close> with the value \<open>W/2 - 1.5\<close> and its closing keyframe at
  \<open>t = 210\<close> with the value \<open>W/2\<close>. A player therefore shows \<open>198.5\<close> at frame \<open>0\<close>
  and \<open>200\<close> at frame \<open>210\<close>: the two differ by \<open>1.5\<close>, not by at most \<open>1e-3\<close>. Every
  other track of the document (the sway of the other layers and the blink of each eye)
  has equal values at the two frames.
\<close>

theorem scarf_track_breaks_loop_seam:
  "\<exists>doc. generate_lottie = Some doc \<and>
     (''Scarf'', scarf_track) \<in> set (doc_tracks doc) \<and>
     kf_t (hd scarf_track) = 8 \<and> kf_s (hd scarf_track) = [W / 2 - 1.5, H / 2, 0] \<and>
     kf_t (last scarf_track) = 210 \<and> kf_s (last scarf_track) = [W / 2, H / 2, 0] \<and>
     track_value ease scarf_track 0 = [198.5, 230, 0] \<and>
     track_value ease scarf_track (of_int TOTAL_FRAMES) = [200, 230, 0] \<and>
     \<not> seam_ok ease scarf_track \<and>
     list_all (\<lambda>(name, kfs). name = ''Scarf'' \<or> seam_ok ease kfs) (doc_tracks doc)"
proof -
  obtain doc where doc: "generate_lottie = Some doc"
    and tracks: "doc_tracks doc =
       [(''Blush'', body_sway_track), (''Beak'', body_sway_track),
        (''Right Eye'', body_sway_track), (''Right Eye'', blink_keyframes),
        (''Left Eye'', body_sway_track), (''Left Eye'', blink_keyframes),
        (''Face Patch'', body_sway_track), (''Head'', body_sway_track),
        (''Scarf'', scarf_track),
        (''Right Wing'', body_sway_track), (''Left Wing'', body_sway_track),
        (''Belly'', body_sway_track), (''Body'', body_sway_track), (''Feet'', body_sway_track)]"
    using generate_lottie_tracks by blast
  have ends: "kf_t (hd scarf_track) = 8 \<and> kf_s (hd scarf_track) = [W / 2 - 1.5, H / 2, 0] \<and>
     kf_t (last scarf_track) = 210 \<and> kf_s (last scarf_track) = [W / 2, H / 2, 0]"
    by (simp add: scarf_track_def pos_kf_def W_def H_def)
  have others: "list_all (\<lambda>(name, kfs). name = ''Scarf'' \<or> seam_ok ease kfs) (doc_tracks doc)"
    by (simp add: tracks body_sway_track_seam blink_track_seam)
  have mem: "(''Scarf'', scarf_track) \<in> set (doc_tracks doc)"
    by (simp add: tracks)
  show ?thesis
    using doc mem ends others scarf_track_values[of ease] scarf_track_no_seam[of ease]
    by (intro exI[of _ doc]) (simp add: total_frames_210)
qed

section \<open>Bezier segments stay in the hull of their control points\<close>

lemma bez_0: "bez a b c d 0 = a"
  by (simp add: bez_def)

lemma bez_1: "bez a b c d 1 = d"
  by (simp add: bez_def)

lemma bez_weights: "(1 - u) ^ 3 + 3 * (1 - u) ^ 2 * u + 3 * (1 - u) * u ^ 2 + u ^ 3 = (1::real)"
  by (simp add: power2_eq_square power3_eq_cube algebra_simps)

lemma bez_lower:
  assumes "0 \<le> u" "u \<le> 1" "lo \<le> a" "lo \<le> b" "lo \<le> c" "lo \<le> d"
  shows "lo \<le> bez a b c d u"
proof -
  have w: "0 \<le> (1 - u) ^ 3" "0 \<le> 3 * (1 - u) ^ 2 * u" "0 \<le> 3 * (1 - u) * u ^ 2" "0 \<le> u ^ 3"
    using assms by simp_all
  have "bez a b c d u - lo =
          (1 - u) ^ 3 * (a - lo) + 3 * (1 - u) ^ 2 * u * (b - lo)
          + 3 * (1 - u) * u ^ 2 * (c - lo) + u ^ 3 * (d - lo)
          + lo * ((1 - u) ^ 3 + 3 * (1 - u) ^ 2 * u + 3 * (1 - u) * u ^ 2 + u ^ 3 - 1)"
    by (simp add: bez_def algebra_simps)
  also have "\<dots> = (1 - u) ^ 3 * (a - lo) + 3 * (1 - u) ^ 2 * u * (b - lo)
          + 3 * (1 - u) * u ^ 2 * (c - lo) + u ^ 3 * (d - lo)"
    by (simp only: bez_weights) simp
  also have "0 \<le> \<dots>"
    using w assms by (intro add_nonneg_nonneg mult_nonneg_nonneg) simp_all
  finally show ?thesis by simp
qed

lemma bez_neg: "bez (- a) (- b) (- c) (- d) u = - bez a b c d u"
  by (simp add: bez_def algebra_simps)

lemma bez_upper:
  assumes "0 \<le> u" "u \<le> 1" "a \<le> hi" "b \<le> hi" "c \<le> hi" "d \<le> hi"
  shows "bez a b c d u \<le> hi"
proof -
  have "- hi \<le> bez (- a) (- b) (- c) (- d) u"
    using assms by (intro bez_lower) simp_all
  then show ?thesis by (simp add: bez_neg)
qed

lemma cubic_in_box:
  assumes "0 \<le> u" "u \<le> 1"
    and "in_box x0 x1 y0 y1 a" "in_box x0 x1 y0 y1 b" "in_box x0 x1 y0 y1 c" "in_box x0 x1 y0 y1 d"
  shows "in_box x0 x1 y0 y1 (cubic_at (a, b, c, d) u)"
  using assms by (simp add: in_box_def cubic_at_def bez_lower bez_upper)

lemma cubic_at_0: "cubic_at (a, b, c, d) 0 = a"
  by (simp add: cubic_at_def bez_0)

lemma on_curve_nth: "k < length segs \<Longrightarrow> on_curve segs (fst (segs ! k))"
  unfolding on_curve_def
  by (intro bexI[of _ "segs ! k"] exI[of _ 0]) (auto simp: cubic_at_def bez_0 split: prod.splits)

section \<open>The ellipse\<close>

lemma kappa_bounds: "0 \<le> KAPPA" "KAPPA \<le> 1"
  by (simp_all add: KAPPA_def)

lemma ellipse_lottie_segments:
  "lottie_segments (ellipse_bezier_path cx cy rx ry) =
     [((cx, cy - ry), (cx + rx * KAPPA, cy - ry), (cx + rx, cy - ry * KAPPA), (cx + rx, cy)),
      ((cx + rx, cy), (cx + rx, cy + ry * KAPPA), (cx + rx * KAPPA, cy + ry), (cx, cy + ry)),
      ((cx, cy + ry), (cx - rx * KAPPA, cy + ry), (cx - rx, cy + ry * KAPPA), (cx - rx, cy)),
      ((cx - rx, cy), (cx - rx, cy - ry * KAPPA), (cx - rx * KAPPA, cy - ry), (cx, cy - ry))]"
  by (simp add: lottie_segments_def ellipse_bezier_path_def padd_def)

lemma ellipse_bounding_box:
  assumes "0 \<le> rx" "0 \<le> ry"
  shows "bounding_box (lottie_segments (ellipse_bezier_path cx cy rx ry))
           (cx - rx) (cx + rx) (cy - ry) (cy + ry)"
proof -
  let ?segs = "lottie_segments (ellipse_bezier_path cx cy rx ry)"
  have kx: "0 \<le> rx * KAPPA" "rx * KAPPA \<le> rx"
    using assms kappa_bounds by (simp_all add: mult_left_le)
  have ky: "0 \<le> ry * KAPPA" "ry * KAPPA \<le> ry"
    using assms kappa_bounds by (simp_all add: mult_left_le)
  have inside: "in_box (cx - rx) (cx + rx) (cy - ry) (cy + ry) q" if "on_curve ?segs q" for q
  proof -
    from that obtain sg u where sg: "sg \<in> set ?segs" and u: "0 \<le> u" "u \<le> 1"
      and q: "q = cubic_at sg u"
      unfolding on_curve_def by auto
    from sg consider
        "sg = ((cx, cy - ry), (cx + rx * KAPPA, cy - ry), (cx + rx, cy - ry * KAPPA), (cx + rx, cy))"
      | "sg = ((cx + rx, cy), (cx + rx, cy + ry * KAPPA), (cx + rx * KAPPA, cy + ry), (cx, cy + ry))"
      | "sg = ((cx, cy + ry), (cx - rx * KAPPA, cy + ry), (cx - rx, cy + ry * KAPPA), (cx - rx, cy))"
      | "sg = ((cx - rx, cy), (cx - rx, cy - ry * KAPPA), (cx - rx * KAPPA, cy - ry), (cx, cy - ry))"
      by (auto simp: ellipse_lottie_segments)
    then show ?thesis
    proof cases
      case 1
      show ?thesis unfolding q 1
        using u assms kx ky by (intro cubic_in_box) (simp_all add: in_box_def)
    next
      case 2
      show ?thesis unfolding q 2
        using u assms kx ky by (intro cubic_in_box) (simp_all add: in_box_def)
    next
      case 3
      show ?thesis unfolding q 3
        using u assms kx ky by (intro cubic_in_box) (simp_all add: in_box_def)
    next
      case 4
      show ?thesis unfolding q 4
        using u assms kx ky by (intro cubic_in_box) (simp_all add: in_box_def)
    qed
  qed
  have top: "on_curve ?segs (cx, cy - ry)"
    using on_curve_nth[of 0 ?segs] by (simp add: ellipse_lottie_segments)
  have right: "on_curve ?segs (cx + rx, cy)"
    using on_curve_nth[of 1 ?segs] by (simp add: ellipse_lottie_segments)
  have bottom: "on_curve ?segs (cx, cy + ry)"
    using on_curve_nth[of 2 ?segs] by (simp add: ellipse_lottie_segments)
  have left: "on_curve ?segs (cx - rx, cy)"
    using on_curve_nth[of 3 ?segs] by (simp add: ellipse_lottie_segments)
  show ?thesis
    unfolding bounding_box_def
  proof (intro conjI allI impI)
    show "\<exists>q. on_curve ?segs q \<and> fst q = cx - rx" using left by force
    show "\<exists>q. on_curve ?segs q \<and> fst q = cx + rx" using right by force
    show "\<exists>q. on_curve ?segs q \<and> snd q = cy - ry" using top by force
    show "\<exists>q. on_curve ?segs q \<and> snd q = cy + ry" using bottom by force
  qed (rule inside)
qed

lemma ellipse_tangent_lengths:
  assumes "0 \<le> rx" "0 \<le> ry"
  shows "map (pdist (0, 0)) (path_i (ellipse_bezier_path cx cy rx ry))
           = [rx * KAPPA, ry * KAPPA, rx * KAPPA, ry * KAPPA]"
    and "map (pdist (0, 0)) (path_o (ellipse_bezier_path cx cy rx ry))
           = [rx * KAPPA, ry * KAPPA, rx * KAPPA, ry * KAPPA]"
  using assms kappa_bounds
  by (simp_all add: ellipse_bezier_path_def pdist_def real_sqrt_mult)

text \<open>
  C8. The ellipse primitive returns a closed path with exactly four vertices, at the top,
  right, bottom and left cardinal points; every tangent handle has the length of its radius
  times \<open>KAPPA = 0.5522848\<close>; the curve has the bounding box
  \<open>[cx - rx, cx + rx] \<times> [cy - ry, cy + ry]\<close>. For the centre \<open>(100, 100)\<close>, \<open>rx = 50\<close> and
  \<open>ry = 30\<close> the vertices are \<open>(100, 70)\<close>, \<open>(150, 100)\<close>, \<open>(100, 130)\<close>, \<open>(50, 100)\<close>
  and the box is \<open>[50, 150] \<times> [70, 130]\<close>.
\<close>

theorem ellipse_cardinal_points_and_box:
  assumes "0 \<le> rx" and "0 \<le> ry"
  shows "path_c (ellipse_bezier_path cx cy rx ry) \<and>
         path_v (ellipse_bezier_path cx cy rx ry)
           = [(cx, cy - ry), (cx + rx, cy), (cx, cy + ry), (cx - rx, cy)] \<and>
         length (path_v (ellipse_bezier_path cx cy rx ry)) = 4 \<and>
         map (pdist (0, 0)) (path_i (ellipse_bezier_path cx cy rx ry))
           = [rx * KAPPA, ry * KAPPA, rx * KAPPA, ry * KAPPA] \<and>
         map (pdist (0, 0)) (path_o (ellipse_bezier_path cx cy rx ry))
           = [rx * KAPPA, ry * KAPPA, rx * KAPPA, ry * KAPPA] \<and>
         KAPPA = 0.5522848 \<and>
         bounding_box (lottie_segments (ellipse_bezier_path cx cy rx ry))
           (cx - rx) (cx + rx) (cy - ry) (cy + ry)"
  using ellipse_bounding_box[OF assms] ellipse_tangent_lengths[OF assms]
  by (simp add: ellipse_bezier_path_def KAPPA_def)

theorem ellipse_cardinal_points_and_box_witness:
  "(0::real) \<le> 50 \<and> (0::real) \<le> 30 \<and>
   path_v (ellipse_bezier_path 100 100 50 30) = [(100, 70), (150, 100), (100, 130), (50, 100)] \<and>
   length (path_v (ellipse_bezier_path 100 100 50 30)) = 4 \<and>
   bounding_box (lottie_segments (ellipse_bezier_path 100 100 50 30)) 50 150 70 130"
  using ellipse_cardinal_points_and_box[of 50 30 100 100]
  by simp

section \<open>The shape constructors never reject their arguments\<close>

text \<open>
  C4 (as amended). No primitive shape constructor (ellipse, egg shape, rounded triangle,
  flipper, scarf) validates its size parameters: for every real argument, zero and negative
  sizes included, the call returns a closed path with as many in-tangents and out-tangents
  as vertices, and never fails with \<open>InvalidGeometry\<close>.
\<close>

theorem shape_constructors_total:
  "build_shape intent \<noteq> Inl InvalidGeometry \<and>
   (\<exists>P. build_shape intent = Inr P \<and> path_c P \<and>
        length (path_i P) = length (path_v P) \<and> length (path_o P) = length (path_v P))"
  by (cases intent)
     (simp_all add: ellipse_bezier_path_def egg_shape_path_def rounded_triangle_path_def
        wing_path_def scarf_path_def Let_def)

theorem negative_radius_counterexample:
  "size_params (Ellipse 100 100 (- 50) 0) = [- 50, 0] \<and> (- 50 :: real) \<le> 0 \<and>
   build_shape (Ellipse 100 100 (- 50) 0) =
     Inr \<lparr> path_c = True,
           path_v = [(100, 100), (50, 100), (100, 100), (150, 100)],
           path_i = [(50 * KAPPA, 0), (0, 0), (- 50 * KAPPA, 0), (0, 0)],
           path_o = [(- 50 * KAPPA, 0), (0, 0), (50 * KAPPA, 0), (0, 0)] \<rparr> \<and>
   build_shape (Ellipse 100 100 (- 50) 0) \<noteq> Inl InvalidGeometry"
  by (simp add: ellipse_bezier_path_def)

section \<open>The rotation of the flipper\<close>

lemma rot_t_compose:
  "rot_t (cos a) (sin a) (fst (rot_t (cos b) (sin b) x y)) (snd (rot_t (cos b) (sin b) x y))
     = rot_t (cos (a + b)) (sin (a + b)) x y"
  by (simp add: rot_t_def cos_add sin_add algebra_simps)

lemma rot_t_zero: "rot_t (cos 0) (sin 0) x y = (x, y)"
  by (simp add: rot_t_def)

lemma rot_square_dist:
  fixes c s x y x' y' :: real
  assumes "c\<^sup>2 + s\<^sup>2 = 1"
  shows "((x * c - y * s) - (x' * c - y' * s))\<^sup>2 + ((x * s + y * c) - (x' * s + y' * c))\<^sup>2
           = (x - x')\<^sup>2 + (y - y')\<^sup>2" (is "?l = ?r")
proof -
  have "?l = ((x - x')\<^sup>2 + (y - y')\<^sup>2) * (c\<^sup>2 + s\<^sup>2)"
    by algebra
  then show ?thesis by (simp add: assms)
qed

lemma cos_sin_unit: "(cos a)\<^sup>2 + (sin a)\<^sup>2 = (1::real)"
  by (simp add: add.commute)

lemma rot_isometry:
  "pdist (rot (cos a) (sin a) wing_x oy x y) (rot (cos a) (sin a) wing_x oy x' y')
     = pdist (x, y) (x', y')"
proof -
  have "(x * cos a - y * sin a + wing_x - (x' * cos a - y' * sin a + wing_x))\<^sup>2
        + (x * sin a + y * cos a + oy - (x' * sin a + y' * cos a + oy))\<^sup>2
        = ((x * cos a - y * sin a) - (x' * cos a - y' * sin a))\<^sup>2
          + ((x * sin a + y * cos a) - (x' * sin a + y' * cos a))\<^sup>2"
    by simp
  also have "\<dots> = (x - x')\<^sup>2 + (y - y')\<^sup>2"
    by (rule rot_square_dist[OF cos_sin_unit])
  finally show ?thesis
    by (simp add: pdist_def rot_def)
qed

lemma rot_t_isometry:
  "pdist (rot_t (cos a) (sin a) x y) (rot_t (cos a) (sin a) x' y') = pdist (x, y) (x', y')"
  using rot_isometry[of a 0 0 x y x' y'] by (simp add: rot_def rot_t_def)

lemma rot_point_isometry: "pdist (rot_point a wx oy q) (rot_point a wx oy r) = pdist q r"
  using rot_isometry[of a wx oy "fst q" "snd q" "fst r" "snd r"]
  by (simp add: rot_point_def)

lemma polygon_length_isometry:
  assumes "\<And>a b. pdist (f a) (f b) = pdist a b"
  shows "polygon_length (map f vs) = polygon_length vs"
proof -
  have "zip (map f vs) (rotate1 (map f vs)) = map (\<lambda>(a, b). (f a, f b)) (zip vs (rotate1 vs))"
    by (simp add: rotate1_map zip_map_map)
  then show ?thesis
    by (simp add: polygon_length_def comp_def case_prod_unfold assms)
qed

lemma rot_point_padd:
  "padd (rot_point a wx oy q) (rot_vector a r) = rot_point a wx oy (padd q r)"
  by (simp add: rot_point_def rot_vector_def rot_def rot_t_def padd_def algebra_simps)

lemma bez_affine:
  "bez (a * c - a' * s + k) (b * c - b' * s + k) (d * c - d' * s + k) (e * c - e' * s + k) u
     = bez a b d e u * c - bez a' b' d' e' u * s + k"
proof -
  have "bez (a * c - a' * s + k) (b * c - b' * s + k) (d * c - d' * s + k) (e * c - e' * s + k) u
        = bez a b d e u * c - bez a' b' d' e' u * s
          + k * ((1 - u) ^ 3 + 3 * (1 - u) ^ 2 * u + 3 * (1 - u) * u ^ 2 + u ^ 3)"
    unfolding bez_def by (simp add: algebra_simps)
  then show ?thesis by (simp only: bez_weights mult_1_right)
qed

lemma cubic_at_rot_point:
  "cubic_at (rot_point a wx oy q0, rot_point a wx oy q1, rot_point a wx oy q2, rot_point a wx oy q3) u
     = rot_point a wx oy (cubic_at (q0, q1, q2, q3) u)"
proof -
  have x: "bez (fst q0 * cos a - snd q0 * sin a + wx) (fst q1 * cos a - snd q1 * sin a + wx)
             (fst q2 * cos a - snd q2 * sin a + wx) (fst q3 * cos a - snd q3 * sin a + wx) u
           = bez (fst q0) (fst q1) (fst q2) (fst q3) u * cos a
             - bez (snd q0) (snd q1) (snd q2) (snd q3) u * sin a + wx"
    by (rule bez_affine)
  have y: "bez (fst q0 * sin a + snd q0 * cos a + oy) (fst q1 * sin a + snd q1 * cos a + oy)
             (fst q2 * sin a + snd q2 * cos a + oy) (fst q3 * sin a + snd q3 * cos a + oy) u
           = bez (fst q0) (fst q1) (fst q2) (fst q3) u * sin a
             + bez (snd q0) (snd q1) (snd q2) (snd q3) u * cos a + oy"
    using bez_affine[of "fst q0" "sin a" "- snd q0" "cos a" oy "fst q1" "- snd q1"
                        "fst q2" "- snd q2" "fst q3" "- snd q3" u]
    by (simp add: bez_neg)
  show ?thesis
    by (simp add: cubic_at_def rot_point_def rot_def x y)
qed

lemma cubic_at_rot_cubic:
  "cubic_at (rot_cubic a wx oy sg) u = rot_point a wx oy (cubic_at sg u)"
  by (cases sg) (simp add: rot_cubic_def cubic_at_rot_point)

lemma rotate_about_as_rot_point:
  "rotate_about a piv c =
     rot_point a (fst piv - fst piv * cos a + snd piv * sin a)
                 (snd piv - fst piv * sin a - snd piv * cos a) c"
  by (simp add: rotate_about_def rot_point_def rot_def algebra_simps)

lemma rotate_about_zero: "rotate_about 0 piv c = c"
  by (simp add: rotate_about_def rot_def)

lemma rotate_about_compose:
  "rotate_about a piv (rotate_about b piv c) = rotate_about (a + b) piv c"
  by (simp add: rotate_about_def rot_def cos_add sin_add algebra_simps)

lemma rotate_about_isometry:
  "pdist (rotate_about a piv c) (rotate_about a piv d) = pdist c d"
  unfolding rotate_about_as_rot_point by (rule rot_point_isometry)

lemma rot_vector_zero: "rot_vector 0 t = t"
  by (simp add: rot_vector_def rot_t_def)

lemma rot_vector_compose: "rot_vector a (rot_vector b t) = rot_vector (a + b) t"
  by (simp add: rot_vector_def rot_t_compose)

lemma rot_vector_isometry: "pdist (rot_vector a t) (rot_vector a t') = pdist t t'"
  by (simp add: rot_vector_def rot_t_isometry)

lemma wing_path_is_rotated_wing:
  "wing_path cx cy side wing_w wing_h angle_deg =
     transform_path (radians (side * angle_deg)) (wing_pivot cx cy side wing_h)
       (wing_path cx cy side wing_w wing_h 0)"
  by (simp add: wing_path_def transform_path_def rotate_about_def rot_vector_def rot_def
        rot_t_def radians_def wing_pivot_def Let_def)

lemma transform_path_segments:
  "lottie_segments (transform_path a piv P) =
     map (rot_cubic a (fst piv - fst piv * cos a + snd piv * sin a)
                      (snd piv - fst piv * sin a - snd piv * cos a))
         (lottie_segments P)"
proof -
  let ?f = "rotate_about a piv" and ?g = "rot_vector a"
  let ?F = "\<lambda>x :: (point \<times> point) \<times> (point \<times> point).
              (fst (fst x), padd (fst (fst x)) (snd (fst x)), padd (fst (snd x)) (snd (snd x)), fst (snd x))"
  let ?rc = "rot_cubic a (fst piv - fst piv * cos a + snd piv * sin a)
                         (snd piv - fst piv * sin a - snd piv * cos a)"
  have zipped: "zip (zip (map ?f vs) (map ?g outs)) (zip (rotate1 (map ?f vs)) (rotate1 (map ?g ins)))
        = map (\<lambda>x. ((?f (fst (fst x)), ?g (snd (fst x))), (?f (fst (snd x)), ?g (snd (snd x)))))
              (zip (zip vs outs) (zip (rotate1 vs) (rotate1 ins)))" for vs outs ins
    by (simp add: rotate1_map zip_map_map case_prod_unfold)
  have padd_rot: "padd (?f q) (?g r) = ?f (padd q r)" for q r
    unfolding rotate_about_as_rot_point by (rule rot_point_padd)
  have seg: "?F ((?f (fst (fst x)), ?g (snd (fst x))), (?f (fst (snd x)), ?g (snd (snd x))))
               = ?rc (?F x)" for x
    by (simp add: padd_rot rot_cubic_def rotate_about_as_rot_point[symmetric])
  have mapped: "map ?F (zip (zip (map ?f vs) (map ?g outs)) (zip (rotate1 (map ?f vs)) (rotate1 (map ?g ins))))
        = map ?rc (map ?F (zip (zip vs outs) (zip (rotate1 vs) (rotate1 ins))))" for vs outs ins
    by (simp only: zipped map_map comp_def seg)
  show ?thesis
    by (simp add: lottie_segments_def transform_path_def case_prod_unfold Let_def mapped
          map_butlast del: map_map)
qed

lemma transform_path_congruent:
  assumes "j < length (lottie_segments P)" "k < length (lottie_segments P)"
  shows "pdist (cubic_at (lottie_segments (transform_path a piv P) ! j) u)
               (cubic_at (lottie_segments (transform_path a piv P) ! k) v)
         = pdist (cubic_at (lottie_segments P ! j) u) (cubic_at (lottie_segments P ! k) v)"
  using assms
  by (simp add: transform_path_segments cubic_at_rot_cubic rot_point_isometry)

lemma transform_path_polygon_length:
  "polygon_length (path_v (transform_path a piv P)) = polygon_length (path_v P)"
  by (simp add: transform_path_def polygon_length_isometry rotate_about_isometry)

lemma wing_segments_length:
  "length (lottie_segments (wing_path cx cy side wing_w wing_h angle_deg)) = 4"
  by (simp add: lottie_segments_def wing_path_def Let_def)

text \<open>
  C7. The rotation of a point about a pivot and the rotation of a tangent, as \<open>rot\<close> and
  \<open>rot_t\<close> compute them, satisfy: rotating by \<open>b\<close> and then by \<open>a\<close> about the same
  pivot is rotating by \<open>a + b\<close> about it; a zero-angle rotation returns the point, and the
  tangent, that it is given; and both keep distances. The flipper that \<open>wing_path\<close>
  returns for an angle is the flipper for angle zero with every vertex rotated about the
  pivot and every tangent rotated. Applying the rotation to every vertex and tangent of a
  path keeps the number of vertices and of segments, the length of the polygon through the
  vertices, and the distance between any two points of the outline: the outline is moved
  rigidly, for every angle.
\<close>

theorem rotation_about_pivot_laws:
  "rotate_about a piv (rotate_about b piv c) = rotate_about (a + b) piv c \<and>
   rotate_about 0 piv c = c \<and>
   rot_vector a (rot_vector b t) = rot_vector (a + b) t \<and>
   rot_vector 0 t = t \<and>
   pdist (rotate_about a piv c) (rotate_about a piv d) = pdist c d \<and>
   pdist (rot_vector a t) (rot_vector a t') = pdist t t' \<and>
   wing_path cx cy side wing_w wing_h angle_deg =
     transform_path (radians (side * angle_deg)) (wing_pivot cx cy side wing_h)
       (wing_path cx cy side wing_w wing_h 0) \<and>
   length (path_v (transform_path a piv P)) = length (path_v P) \<and>
   length (lottie_segments (transform_path a piv P)) = length (lottie_segments P) \<and>
   polygon_length (path_v (transform_path a piv P)) = polygon_length (path_v P) \<and>
   (\<forall>j k u v. j < length (lottie_segments P) \<and> k < length (lottie_segments P) \<longrightarrow>
      pdist (cubic_at (lottie_segments (transform_path a piv P) ! j) u)
            (cubic_at (lottie_segments (transform_path a piv P) ! k) v)
      = pdist (cubic_at (lottie_segments P ! j) u) (cubic_at (lottie_segments P ! k) v))"
proof -
  have counts: "length (path_v (transform_path a piv P)) = length (path_v P)"
    "length (lottie_segments (transform_path a piv P)) = length (lottie_segments P)"
    by (simp_all add: transform_path_segments) (simp add: transform_path_def)
  show ?thesis
    using rotate_about_compose[of a piv b c] rotate_about_zero[of piv c]
      rot_vector_compose[of a b t] rot_vector_zero[of t]
      rotate_about_isometry[of a piv c d] rot_vector_isometry[of a t t']
      wing_path_is_rotated_wing[of cx cy side wing_w wing_h angle_deg] counts
      transform_path_polygon_length[of a piv P]
      transform_path_congruent[of _ P _ a piv]
    by (intro conjI allI impI) (simp_all only: )
qed

theorem rotation_about_pivot_laws_witness:
  "(0::nat) < length (lottie_segments (wing_path 200 240 1 34 74.8 0)) \<and>
   (1::nat) < length (lottie_segments (wing_path 200 240 1 34 74.8 0)) \<and>
   rotate_about 0 (wing_pivot 200 240 1 74.8) (325.8, 179.48) = (325.8, 179.48) \<and>
   wing_path 200 240 1 34 74.8 15 =
     transform_path (radians (1 * 15)) (wing_pivot 200 240 1 74.8) (wing_path 200 240 1 34 74.8 0) \<and>
   pdist (cubic_at (lottie_segments (transform_path (radians (1 * 15)) (wing_pivot 200 240 1 74.8)
                                       (wing_path 200 240 1 34 74.8 0)) ! 0) 0)
         (cubic_at (lottie_segments (transform_path (radians (1 * 15)) (wing_pivot 200 240 1 74.8)
                                       (wing_path 200 240 1 34 74.8 0)) ! 1) 0)
   = pdist (cubic_at (lottie_segments (wing_path 200 240 1 34 74.8 0) ! 0) 0)
           (cubic_at (lottie_segments (wing_path 200 240 1 34 74.8 0) ! 1) 0)"
proof -
  have n: "length (lottie_segments (wing_path 200 240 1 34 74.8 0)) = 4"
    by (rule wing_segments_length)
  have j: "(0::nat) < length (lottie_segments (wing_path 200 240 1 34 74.8 0))"
    and k: "(1::nat) < length (lottie_segments (wing_path 200 240 1 34 74.8 0))"
    by (simp_all only: n)
  note laws = rotation_about_pivot_laws[where a = "radians (1 * 15)"
      and piv = "wing_pivot 200 240 1 74.8" and P = "wing_path 200 240 1 34 74.8 0"
      and c = "(325.8, 179.48)" and cx = 200 and cy = 240 and side = 1 and wing_w = 34
      and wing_h = "74.8" and angle_deg = 15 and b = 0 and d = "(0, 0)" and t = "(0, 0)"
      and t' = "(0, 0)"]
  from laws have zero: "rotate_about 0 (wing_pivot 200 240 1 74.8) (325.8, 179.48) = (325.8, 179.48)"
    by blast
  from laws have wing: "wing_path 200 240 1 34 74.8 15 =
     transform_path (radians (1 * 15)) (wing_pivot 200 240 1 74.8) (wing_path 200 240 1 34 74.8 0)"
    by blast
  from laws j k have dist:
    "pdist (cubic_at (lottie_segments (transform_path (radians (1 * 15)) (wing_pivot 200 240 1 74.8)
                                       (wing_path 200 240 1 34 74.8 0)) ! 0) 0)
         (cubic_at (lottie_segments (transform_path (radians (1 * 15)) (wing_pivot 200 240 1 74.8)
                                       (wing_path 200 240 1 34 74.8 0)) ! 1) 0)
   = pdist (cubic_at (lottie_segments (wing_path 200 240 1 34 74.8 0) ! 0) 0)
           (cubic_at (lottie_segments (wing_path 200 240 1 34 74.8 0) ! 1) 0)"
    by blast
  from j k zero wing dist show ?thesis by (intro conjI)
qed

section \<open>Embedding images: a missing image does not stop the batch\<close>

lemma z_read_listed:
  assumes "name \<in> set (namelist z)"
  shows "\<exists>img. z_read z name = Inr img"
proof -
  have "name \<in> fst ` set (rev z)"
    using assms by (simp add: namelist_def)
  then have "map_of (rev z) name \<noteq> None"
    by (simp add: map_of_eq_None_iff)
  then show ?thesis
    by (auto simp: z_read_def split: option.splits)
qed

lemma embed_asset_found:
  assumes "p_is_string a" and "set image_files \<subseteq> set (namelist z)"
    and "lookup_key a \<in> set image_files"
  shows "\<exists>img lines. z_read z (lookup_key a) = Inr img \<and>
           embed_asset sx b64 z image_files a = Inr (embedded_form sx b64 img a, lines)"
proof -
  obtain img where img: "z_read z (lookup_key a) = Inr img"
    using z_read_listed assms(2,3) by blast
  obtain ps where ps: "get_or a ''p'' (JStr '''') = JStr ps"
    using assms(1) by (auto simp: p_is_string_def get_or_def split: option.splits jval.splits)
  show ?thesis
    using img ps assms(3)
    by (auto simp: embed_asset_def embedded_form_def lookup_key_def py_str_def Let_def)
qed

lemma embed_asset_missing:
  assumes "lookup_key a \<notin> set image_files"
  shows "\<exists>line. embed_asset sx b64 z image_files a =
           Inr (a, [line, NotFound (lookup_key a), AvailableFiles image_files])"
  using assms by (simp add: embed_asset_def lookup_key_def Let_def)

lemma embed_assets_all:
  assumes "\<forall>a \<in> set assets. p_is_string a" and "set image_files \<subseteq> set (namelist z)"
  shows "\<exists>out lines. embed_assets sx b64 z image_files assets = Inr (out, lines) \<and>
           length out = length assets \<and>
           (\<forall>k < length assets.
              if lookup_key (assets ! k) \<in> set image_files
              then \<exists>img. z_read z (lookup_key (assets ! k)) = Inr img \<and>
                         out ! k = embedded_form sx b64 img (assets ! k)
              else out ! k = assets ! k \<and> NotFound (lookup_key (assets ! k)) \<in> set lines)"
  using assms
proof (induction assets)
  case Nil
  then show ?case by simp
next
  case (Cons a rest)
  from Cons obtain out lines where
    rest: "embed_assets sx b64 z image_files rest = Inr (out, lines)"
    and len: "length out = length rest"
    and each: "\<forall>k < length rest.
              if lookup_key (rest ! k) \<in> set image_files
              then \<exists>img. z_read z (lookup_key (rest ! k)) = Inr img \<and>
                         out ! k = embedded_form sx b64 img (rest ! k)
              else out ! k = rest ! k \<and> NotFound (lookup_key (rest ! k)) \<in> set lines"
    by auto
  have pa: "p_is_string a" using Cons.prems by simp
  show ?case
  proof (cases "lookup_key a \<in> set image_files")
    case True
    then obtain img l1 where img: "z_read z (lookup_key a) = Inr img"
      and ea: "embed_asset sx b64 z image_files a = Inr (embedded_form sx b64 img a, l1)"
      using embed_asset_found[OF pa Cons.prems(2)] by blast
    have "\<forall>k < length (a # rest).
              if lookup_key ((a # rest) ! k) \<in> set image_files
              then \<exists>im. z_read z (lookup_key ((a # rest) ! k)) = Inr im \<and>
                         (embedded_form sx b64 img a # out) ! k
                           = embedded_form sx b64 im ((a # rest) ! k)
              else (embedded_form sx b64 img a # out) ! k = (a # rest) ! k \<and>
                   NotFound (lookup_key ((a # rest) ! k)) \<in> set (l1 @ lines)"
    proof (intro allI impI)
      fix k assume "k < length (a # rest)"
      then show "if lookup_key ((a # rest) ! k) \<in> set image_files
              then \<exists>im. z_read z (lookup_key ((a # rest) ! k)) = Inr im \<and>
                         (embedded_form sx b64 img a # out) ! k
                           = embedded_form sx b64 im ((a # rest) ! k)
              else (embedded_form sx b64 img a # out) ! k = (a # rest) ! k \<and>
                   NotFound (lookup_key ((a # rest) ! k)) \<in> set (l1 @ lines)"
        using True img each by (cases k) auto
    qed
    then show ?thesis
      using ea rest len by (intro exI[of _ "embedded_form sx b64 img a # out"] exI[of _ "l1 @ lines"]) simp
  next
    case False
    then obtain line where
      ea: "embed_asset sx b64 z image_files a =
             Inr (a, [line, NotFound (lookup_key a), AvailableFiles image_files])"
      using embed_asset_missing by blast
    let ?l1 = "[line, NotFound (lookup_key a), AvailableFiles image_files]"
    have "\<forall>k < length (a # rest).
              if lookup_key ((a # rest) ! k) \<in> set image_files
              then \<exists>im. z_read z (lookup_key ((a # rest) ! k)) = Inr im \<and>
                         (a # out) ! k = embedded_form sx b64 im ((a # rest) ! k)
              else (a # out) ! k = (a # rest) ! k \<and>
                   NotFound (lookup_key ((a # rest) ! k)) \<in> set (?l1 @ lines)"
    proof (intro allI impI)
      fix k assume "k < length (a # rest)"
      then show "if lookup_key ((a # rest) ! k) \<in> set image_files
              then \<exists>im. z_read z (lookup_key ((a # rest) ! k)) = Inr im \<and>
                         (a # out) ! k = embedded_form sx b64 im ((a # rest) ! k)
              else (a # out) ! k = (a # rest) ! k \<and>
                   NotFound (lookup_key ((a # rest) ! k)) \<in> set (?l1 @ lines)"
        using False each by (cases k) auto
    qed
    then show ?thesis
      using ea rest len by (intro exI[of _ "a # out"] exI[of _ "?l1 @ lines"]) simp
  qed
qed

lemma image_files_listed: "set (image_files_of z) \<subseteq> set (namelist z)"
  by (simp add: image_files_of_def)

lemma lookup_key_explicit:
  assumes "\<forall>s. a ''p'' \<noteq> Some (JOther s)"
  shows "p_is_string a"
    and "lookup_key a = ''images/'' @ (case a ''p'' of Some (JStr s) \<Rightarrow> s | _ \<Rightarrow> '''')"
    and "py_str (get_or a ''p'' (JStr '''')) = (case a ''p'' of Some (JStr s) \<Rightarrow> s | _ \<Rightarrow> '''')"
  using assms
  by (auto simp: p_is_string_def lookup_key_def get_or_def py_str_def
           split: option.splits jval.splits)

lemma image_file_listed_iff:
  "(''images/'' @ s \<in> set (image_files_of z)) = (map_of (rev z) (''images/'' @ s) \<noteq> None)"
proof -
  have "(map_of (rev z) (''images/'' @ s) \<noteq> None) = (''images/'' @ s \<in> fst ` set (rev z))"
    by (simp add: map_of_eq_None_iff)
  then show ?thesis
    by (simp add: image_files_of_def namelist_def)
qed

lemma z_read_bytes: "(z_read z name = Inr img) = (map_of (rev z) name = Some img)"
  by (simp add: z_read_def split: option.splits)

text \<open>
  C9 (as amended). For an asset list in which every \<open>p\<close> that is present is a string, the
  embedding step returns (the batch is not aborted) and returns one asset for each input
  asset, in order. With \<open>key = images/<p>\<close> (\<open>p\<close> empty when absent): when the archive
  has no entry of that name, the asset is returned unchanged and the report names the failed
  key, and the assets after it are still processed; when it has one, the asset is rewritten
  to the embedded form, with \<open>u\<close> empty, \<open>p\<close> the data URI of the bytes of the last entry
  of that name, and \<open>e = 1\<close>.
\<close>

theorem missing_image_is_reported_and_skipped:
  assumes "\<forall>a \<in> set assets. \<forall>s. a ''p'' \<noteq> Some (JOther s)"
  shows "\<exists>out lines. embed_images sx b64 z assets = Inr (out, lines) \<and>
           length out = length assets \<and>
           (\<forall>k < length assets.
              let a = assets ! k;
                  ps = (case a ''p'' of Some (JStr s) \<Rightarrow> s | _ \<Rightarrow> '''');
                  key = ''images/'' @ ps
              in case map_of (rev z) key of
                   None \<Rightarrow> out ! k = a \<and> NotFound key \<in> set lines
                 | Some img \<Rightarrow>
                     out ! k = a(''u'' \<mapsto> JStr '''',
                                 ''p'' \<mapsto> JStr (''data:'' @ (if sx ps = ''.webp'' then ''image/webp''
                                                            else ''image/png'')
                                                  @ '';base64,'' @ b64 img),
                                 ''e'' \<mapsto> JOther ''1''))"
proof -
  have ok: "\<forall>a \<in> set assets. p_is_string a"
    using assms lookup_key_explicit(1) by blast
  obtain out lines where res: "embed_images sx b64 z assets = Inr (out, lines)"
    and len: "length out = length assets"
    and each: "\<forall>k < length assets.
              if lookup_key (assets ! k) \<in> set (image_files_of z)
              then \<exists>img. z_read z (lookup_key (assets ! k)) = Inr img \<and>
                         out ! k = embedded_form sx b64 img (assets ! k)
              else out ! k = assets ! k \<and> NotFound (lookup_key (assets ! k)) \<in> set lines"
    using embed_assets_all[OF ok image_files_listed, of sx b64]
    unfolding embed_images_def by blast
  have "let a = assets ! k;
            ps = (case a ''p'' of Some (JStr s) \<Rightarrow> s | _ \<Rightarrow> '''');
            key = ''images/'' @ ps
        in case map_of (rev z) key of
             None \<Rightarrow> out ! k = a \<and> NotFound key \<in> set lines
           | Some img \<Rightarrow>
               out ! k = a(''u'' \<mapsto> JStr '''',
                           ''p'' \<mapsto> JStr (''data:'' @ (if sx ps = ''.webp'' then ''image/webp''
                                                      else ''image/png'')
                                            @ '';base64,'' @ b64 img),
                           ''e'' \<mapsto> JOther ''1'')"
    if k: "k < length assets" for k
  proof -
    let ?a = "assets ! k"
    let ?ps = "case ?a ''p'' of Some (JStr s) \<Rightarrow> s | _ \<Rightarrow> ''''"
    have str: "\<forall>s. ?a ''p'' \<noteq> Some (JOther s)"
      using assms k by simp
    have key: "lookup_key ?a = ''images/'' @ ?ps"
      and ps: "py_str (get_or ?a ''p'' (JStr '''')) = ?ps"
      using lookup_key_explicit(2,3)[of "assets ! k"] str by simp_all
    show ?thesis
    proof (cases "map_of (rev z) (''images/'' @ ?ps)")
      case None
      have "lookup_key ?a \<notin> set (image_files_of z)"
        unfolding key image_file_listed_iff using None by simp
      moreover have "if lookup_key ?a \<in> set (image_files_of z)
              then \<exists>img. z_read z (lookup_key ?a) = Inr img \<and>
                         out ! k = embedded_form sx b64 img ?a
              else out ! k = ?a \<and> NotFound (lookup_key ?a) \<in> set lines"
        using each k by blast
      ultimately have "out ! k = ?a \<and> NotFound (lookup_key ?a) \<in> set lines"
        by (simp only: if_False)
      then show ?thesis
        using None by (simp add: key Let_def)
    next
      case (Some img)
      have "lookup_key ?a \<in> set (image_files_of z)"
        unfolding key image_file_listed_iff using Some by simp
      moreover have "if lookup_key ?a \<in> set (image_files_of z)
              then \<exists>img. z_read z (lookup_key ?a) = Inr img \<and>
                         out ! k = embedded_form sx b64 img ?a
              else out ! k = ?a \<and> NotFound (lookup_key ?a) \<in> set lines"
        using each k by blast
      ultimately have "\<exists>img. z_read z (lookup_key ?a) = Inr img \<and>
                         out ! k = embedded_form sx b64 img ?a"
        by (simp only: if_True)
      then obtain im where "z_read z (lookup_key ?a) = Inr im"
        and "out ! k = embedded_form sx b64 im ?a"
        by blast
      then have "out ! k = embedded_form sx b64 img ?a"
        using Some unfolding z_read_bytes key by simp
      then show ?thesis
        using Some by (simp add: Let_def embedded_form_def ps)
    qed
  qed
  then show ?thesis
    using res len by blast
qed

theorem missing_image_is_reported_and_skipped_witness:
  "map_of (rev [(''images/a.png'', [1, 2, 3])]) ''images/gone.png'' = None \<and>
   map_of (rev [(''images/a.png'', [1, 2, 3])]) ''images/a.png'' = Some [1, 2, 3] \<and>
   embed_images (\<lambda>s. ''.png'') (\<lambda>bs. ''AQID'') [(''images/a.png'', [1, 2, 3])]
      [[''p'' \<mapsto> JStr ''gone.png''], [''p'' \<mapsto> JStr ''a.png'']]
   = Inr ([[''p'' \<mapsto> JStr ''gone.png''],
           [''p'' \<mapsto> JStr ''a.png''](''u'' \<mapsto> JStr '''',
              ''p'' \<mapsto> JStr ''data:image/png;base64,AQID'', ''e'' \<mapsto> JOther ''1'')],
          [AssetLine '''' ''gone.png'' '''' ''0'', NotFound ''images/gone.png'',
           AvailableFiles [''images/a.png''],
           AssetLine '''' ''a.png'' '''' ''0'', Embedded ''images/a.png'' 3])"
proof -
  have h: "\<forall>a \<in> set [[''p'' \<mapsto> JStr ''gone.png''], [''p'' \<mapsto> JStr ''a.png'']].
             \<forall>s. a ''p'' \<noteq> Some (JOther s)"
    by simp
  have run: "embed_images (\<lambda>s. ''.png'') (\<lambda>bs. ''AQID'') [(''images/a.png'', [1, 2, 3])]
      [[''p'' \<mapsto> JStr ''gone.png''], [''p'' \<mapsto> JStr ''a.png'']]
   = Inr ([[''p'' \<mapsto> JStr ''gone.png''],
           [''p'' \<mapsto> JStr ''a.png''](''u'' \<mapsto> JStr '''',
              ''p'' \<mapsto> JStr ''data:image/png;base64,AQID'', ''e'' \<mapsto> JOther ''1'')],
          [AssetLine '''' ''gone.png'' '''' ''0'', NotFound ''images/gone.png'',
           AvailableFiles [''images/a.png''],
           AssetLine '''' ''a.png'' '''' ''0'', Embedded ''images/a.png'' 3])"
    by (simp add: embed_images_def embed_asset_def image_files_of_def namelist_def
          get_or_def py_str_def z_read_def Let_def)
  show ?thesis
    using missing_image_is_reported_and_skipped[OF h, of "\<lambda>s. ''.png''" "\<lambda>bs. ''AQID''"
            "[(''images/a.png'', [1, 2, 3])]"] run
    by simp
qed

theorem non_string_p_aborts_counterexample:
  "embed_images (\<lambda>s. ''.png'') (\<lambda>bs. ''AQID'') [(''images/5'', [1, 2, 3])]
      [[''p'' \<mapsto> JOther ''5''], [''p'' \<mapsto> JStr ''gone.png'']]
   = Inl TypeError"
  by (simp add: embed_images_def embed_asset_def image_files_of_def namelist_def
        get_or_def py_str_def z_read_def Let_def)

section \<open>The body outline in the three backends\<close>

lemma body_path_is_icon_body: "body_path = draw_body_shape CX CY PSIZE"
  by (simp add: body_path_def draw_body_shape_def p_def Let_def)

lemma body_path_segments:
  "cmd_segments start body_path =
     [((200, 128.48), (289.76, 128.48), (364.56, 242.72), (342.12, 348.8)),
      ((342.12, 348.8), (327.16, 405.92), (259.84, 430.4), (200, 422.24)),
      ((200, 422.24), (140.16, 430.4), (72.84, 405.92), (57.88, 348.8)),
      ((57.88, 348.8), (35.44, 242.72), (110.24, 128.48), (200, 128.48))]"
  by (simp add: body_path_def p_def PSIZE_def CX_def CY_def W_def H_def Let_def)

lemma egg_body_segments:
  "lottie_segments build_body_layer_path =
     [((200, 128.48), (267.32, 128.48), (342.12, 177.44), (342.12, 250.88)),
      ((342.12, 250.88), (342.12, 324.32), (349.6, 405.92), (312.2, 381.44)),
      ((312.2, 381.44), (274.8, 405.92), (259.84, 422.24), (200, 422.24)),
      ((200, 422.24), (140.16, 422.24), (50.4, 405.92), (87.8, 381.44)),
      ((87.8, 381.44), (125.2, 405.92), (57.88, 324.32), (57.88, 250.88)),
      ((57.88, 250.88), (57.88, 177.44), (132.68, 128.48), (200, 128.48))]"
  by (simp add: build_body_layer_path_def egg_shape_path_def lottie_segments_def padd_def
        p_def PSIZE_def CX_def CY_def W_def H_def Let_def)

lemma right_upper_on_egg: "on_curve (lottie_segments build_body_layer_path) (342.12, 250.88)"
  using on_curve_nth[of 1 "lottie_segments build_body_layer_path"]
  by (simp add: egg_body_segments)

lemma first_body_segment_misses:
  assumes u: "0 \<le> u" "u \<le> 1"
  shows "cubic_at ((200, 128.48), (289.76, 128.48), (364.56, 242.72), (342.12, 348.8)) u
           \<noteq> (342.12, 250.88)"
proof
  assume eq: "cubic_at ((200, 128.48), (289.76, 128.48), (364.56, 242.72), (342.12, 348.8)) u
                = (342.12, 250.88)"
  have xpoly: "bez 200 289.76 364.56 342.12 u
                 = 200 + 149.6 * (1.8 * u - 0.3 * u\<^sup>2 - 0.55 * u ^ 3)"
    unfolding bez_def by algebra
  have ypoly: "bez 128.48 128.48 242.72 348.8 u
                 = 128.48 + 163.2 * (2.1 * u\<^sup>2 - 0.75 * u ^ 3)"
    unfolding bez_def by algebra
  from eq have bx: "bez 200 289.76 364.56 342.12 u = 342.12"
    and byq: "bez 128.48 128.48 242.72 348.8 u = 250.88"
    by (simp_all add: cubic_at_def)
  have linx: "200 + 149.6 * P = 342.12 \<Longrightarrow> P = 0.95" for P :: real
    by simp
  have liny: "128.48 + 163.2 * Q = 250.88 \<Longrightarrow> Q = 0.75" for Q :: real
    by simp
  have X: "1.8 * u - 0.3 * u\<^sup>2 - 0.55 * u ^ 3 = 0.95"
    using bx[unfolded xpoly] by (rule linx)
  have Y: "2.1 * u\<^sup>2 - 0.75 * u ^ 3 = 0.75"
    using byq[unfolded ypoly] by (rule liny)
  have usq: "0 \<le> u\<^sup>2" "u\<^sup>2 \<le> 1"
    using u by (simp_all add: power_le_one)
  show False
  proof (cases "0.7 \<le> u")
    case True
    have "(2.1 * u\<^sup>2 - 0.75 * u ^ 3) - 0.77175
            = (u - 0.7) * (- 0.75 * u\<^sup>2 + 1.575 * u + 1.1025)"
      by algebra
    moreover have "0 \<le> (u - 0.7) * (- 0.75 * u\<^sup>2 + 1.575 * u + 1.1025)"
      using True u usq by (intro mult_nonneg_nonneg) simp_all
    ultimately show False using Y by simp
  next
    case False
    have "0.92435 - (1.8 * u - 0.3 * u\<^sup>2 - 0.55 * u ^ 3)
            = (0.7 - u) * (1.3205 - 0.685 * u - 0.55 * u\<^sup>2)"
      by algebra
    moreover have "0 \<le> (0.7 - u) * (1.3205 - 0.685 * u - 0.55 * u\<^sup>2)"
      using False u usq by (intro mult_nonneg_nonneg) simp_all
    ultimately show False using X by simp
  qed
qed

lemma right_upper_not_on_body_path: "\<not> on_curve (cmd_segments start body_path) (342.12, 250.88)"
proof
  assume "on_curve (cmd_segments start body_path) (342.12, 250.88)"
  then obtain sg u where sg: "sg \<in> set (cmd_segments start body_path)"
    and u: "0 \<le> u" "u \<le> 1" and q: "cubic_at sg u = (342.12, 250.88)"
    unfolding on_curve_def by auto
  from sg consider
      "sg = ((200, 128.48), (289.76, 128.48), (364.56, 242.72), (342.12, 348.8))"
    | "sg = ((342.12, 348.8), (327.16, 405.92), (259.84, 430.4), (200, 422.24))"
    | "sg = ((200, 422.24), (140.16, 430.4), (72.84, 405.92), (57.88, 348.8))"
    | "sg = ((57.88, 348.8), (35.44, 242.72), (110.24, 128.48), (200, 128.48))"
    by (auto simp: body_path_segments)
  then show False
  proof cases
    case 1
    then show False using first_body_segment_misses[OF u] q by simp
  next
    case 2
    have "348.8 \<le> bez 348.8 405.92 430.4 422.24 u"
      using u by (intro bez_lower) simp_all
    then show False using q 2 by (simp add: cubic_at_def)
  next
    case 3
    have "348.8 \<le> bez 422.24 430.4 405.92 348.8 u"
      using u by (intro bez_lower) simp_all
    then show False using q 3 by (simp add: cubic_at_def)
  next
    case 4
    have "bez 57.88 35.44 110.24 200 u \<le> 200"
      using u by (intro bez_upper) simp_all
    then show False using q 4 by (simp add: cubic_at_def)
  qed
qed

text \<open>
  C3 (evaluation of the code where the claim fails). The vector backend's \<open>body_path\<close> is
  the icon's \<open>draw_body_shape\<close> at the shared constants \<open>CX\<close>, \<open>CY\<close>, \<open>PSIZE\<close>: four
  bezier segments. The animation backend's body, \<open>egg_shape_path\<close> at the same constants
  and the same half-width and half-height, has six segments, and it is another curve: its
  right upper vertex \<open>(342.12, 250.88)\<close> lies on the animation's outline and on no segment
  of the vector outline.
\<close>

theorem body_outline_differs_between_backends:
  "body_path = draw_body_shape CX CY PSIZE \<and>
   build_body_layer_path = egg_shape_path CX (CY + p 0.08) (p 0.44) (p 0.48) \<and>
   length (cmd_segments (0, 0) body_path) = 4 \<and>
   length (lottie_segments build_body_layer_path) = 6 \<and>
   path_v build_body_layer_path ! 1 = (342.12, 250.88) \<and>
   on_curve (lottie_segments build_body_layer_path) (342.12, 250.88) \<and>
   \<not> on_curve (cmd_segments (0, 0) body_path) (342.12, 250.88)"
proof -
  have v1: "path_v build_body_layer_path ! 1 = (342.12, 250.88)"
    by (simp add: build_body_layer_path_def egg_shape_path_def Let_def
          p_def PSIZE_def CX_def CY_def W_def H_def)
  have same_args: "build_body_layer_path = egg_shape_path CX (CY + p 0.08) (p 0.44) (p 0.48)"
    by (simp add: build_body_layer_path_def Let_def)
  show ?thesis
    using body_path_is_icon_body same_args v1 right_upper_on_egg
      right_upper_not_on_body_path[of "(0, 0)"]
    by (simp add: body_path_segments egg_body_segments)
qed

end
